theory Spec2Isabelle
  imports Complex_Main "HOL-Library.Char_ord"
begin

section \<open>Environment maps: projection transforms and resampling\<close>

text \<open>
  A shallow embedding of \<^verbatim>\<open>envmap/environmentmap.py\<close>.

  Finite floating-point numbers are modelled by the reals, so rounding and overflow are
  outside the model; the constants of the code (\<^verbatim>\<open>np.pi\<close>, \<^verbatim>\<open>eps\<close>) are the
  doubles they are.  The results that numpy reports as \<^verbatim>\<open>nan\<close> or
  \<^verbatim>\<open>inf\<close> (a domain error of \<^verbatim>\<open>arccos\<close>, a division by zero) are
  modelled by \<open>None\<close> in \<open>real option\<close>: with one finite operand, \<open>+\<close>, \<open>-\<close>
  and \<open>*\<close> map a non-finite operand to a non-finite result, so \<open>None\<close> propagates.
  The numpy functions work elementwise on arrays; each transform is modelled on one
  element and lifted to arrays where the class calls it on arrays.  The division
  \<^verbatim>\<open>1/2\<close> is Python 3's, one half.
\<close>

subsection \<open>numpy primitives on scalars\<close>

definition eps :: real where
  "eps = 1 / 2 ^ 52"

text \<open>
  \<^verbatim>\<open>np.pi\<close> is the double nearest to \<open>pi\<close>, \<open>884279719003555 / 2 ^ 48\<close>.  It is
  smaller than \<open>pi\<close> by about \<open>1.2 / 10 ^ 16\<close>, so \<^verbatim>\<open>sin(np.pi)\<close> is positive, not
  zero: the transforms behave accordingly where an angle reaches \<^verbatim>\<open>np.pi\<close>.
\<close>

definition np_pi :: real where
  "np_pi = 884279719003555 / 281474976710656"

text \<open>
  \<^verbatim>\<open>np.arctan2(y, x)\<close>: the angle of the point \<open>(x, y)\<close> in \<open>(-pi, pi]\<close>, with
  \<^verbatim>\<open>arctan2(0, 0) = 0\<close>.  The reals have no signed zero, so \<^verbatim>\<open>-0.0\<close> is \<open>0\<close>.
\<close>

definition arctan2 :: "real \<Rightarrow> real \<Rightarrow> real" where
  "arctan2 y x =
     (if 0 < x then arctan (y / x)
      else if x < 0 then (if 0 \<le> y then arctan (y / x) + pi else arctan (y / x) - pi)
      else if 0 < y then pi / 2
      else if y < 0 then - (pi / 2)
      else 0)"

text \<open>\<^verbatim>\<open>np.arccos\<close> is \<^verbatim>\<open>nan\<close> outside \<open>[-1, 1]\<close>.\<close>

definition np_arccos :: "real \<Rightarrow> real option" where
  "np_arccos t = (if - 1 \<le> t \<and> t \<le> 1 then Some (arccos t) else None)"

text \<open>Float division: \<open>a / 0\<close> is \<^verbatim>\<open>inf\<close> or \<^verbatim>\<open>nan\<close>, never an exception.\<close>

definition np_divide :: "real option \<Rightarrow> real \<Rightarrow> real option" where
  "np_divide a b =
     (case a of None \<Rightarrow> None
      | Some t \<Rightarrow> if b = 0 then None else Some (t / b))"

subsection \<open>The six transforms, on one element\<close>

definition world2latlong :: "real \<Rightarrow> real \<Rightarrow> real \<Rightarrow> real option \<times> real option" where
  "world2latlong x y z =
     (let u = 1 + (1 / np_pi) * arctan2 x (- z);
          v = map_option (\<lambda>a. (1 / np_pi) * a) (np_arccos y);
          u = u / 2
      in (Some u, v))"

definition world2angular :: "real \<Rightarrow> real \<Rightarrow> real \<Rightarrow> real option \<times> real option" where
  "world2angular x y z =
     (let denum = (2 * np_pi * sqrt (x\<^sup>2 + y\<^sup>2)) + eps;
          rAngular = np_divide (np_arccos (- z)) denum;
          v = map_option (\<lambda>r. 1 / 2 - r * y) rAngular;
          u = map_option (\<lambda>r. 1 / 2 + r * x) rAngular
      in (u, v))"

definition latlong2world :: "real \<Rightarrow> real \<Rightarrow> real \<times> real \<times> real \<times> bool" where
  "latlong2world u v =
     (let u = u * 2;
          thetaLatLong = np_pi * (u - 1);
          phiLatLong = np_pi * v;
          x = sin phiLatLong * sin thetaLatLong;
          y = cos phiLatLong;
          z = - sin phiLatLong * cos thetaLatLong;
          valid = True
      in (x, y, z, valid))"

definition angular2world :: "real \<Rightarrow> real \<Rightarrow> real \<times> real \<times> real \<times> bool" where
  "angular2world u v =
     (let thetaAngular = arctan2 (- 2 * v + 1) (2 * u - 1);
          phiAngular = np_pi * sqrt ((2 * u - 1)\<^sup>2 + (2 * v - 1)\<^sup>2);
          x = sin phiAngular * cos thetaAngular;
          y = sin phiAngular * sin thetaAngular;
          z = - cos phiAngular;
          r = (u - 1 / 2)\<^sup>2 + (v - 1 / 2)\<^sup>2;
          valid = (r \<le> 1 / 4)
      in (x, y, z, valid))"

definition skyangular2world :: "real \<Rightarrow> real \<Rightarrow> real \<times> real \<times> real \<times> bool" where
  "skyangular2world u v =
     (let thetaAngular = arctan2 (- 2 * v + 1) (2 * u - 1);
          phiAngular = np_pi / 2 * sqrt ((2 * u - 1)\<^sup>2 + (2 * v - 1)\<^sup>2);
          x = sin phiAngular * cos thetaAngular;
          z = sin phiAngular * sin thetaAngular;
          y = cos phiAngular;
          r = (u - 1 / 2)\<^sup>2 + (v - 1 / 2)\<^sup>2;
          valid = (r \<le> 1 / 4)
      in (x, y, z, valid))"

definition world2skyangular :: "real \<Rightarrow> real \<Rightarrow> real \<Rightarrow> real option \<times> real option" where
  "world2skyangular x y z =
     (let thetaAngular = arctan2 x z;
          phiAngular = arctan2 (sqrt (x\<^sup>2 + z\<^sup>2)) y;
          r = phiAngular / (np_pi / 2);
          u = r * sin thetaAngular / 2 + 1 / 2;
          v = 1 / 2 - r * cos thetaAngular / 2
      in (Some u, Some v))"

text \<open>
  One image-to-world transform followed by a world-to-image transform, as the round-trip
  test composes them: the validity flag is dropped, the direction is mapped back.
\<close>

definition roundtrip ::
  "(real \<Rightarrow> real \<Rightarrow> real \<Rightarrow> real option \<times> real option) \<Rightarrow>
   (real \<Rightarrow> real \<Rightarrow> real \<times> real \<times> real \<times> bool) \<Rightarrow>
   real \<Rightarrow> real \<Rightarrow> real option \<times> real option" where
  "roundtrip w2i i2w u v = (case i2w u v of (x, y, z, valid) \<Rightarrow> w2i x y z)"

text \<open>
  The factor by which the epsilon in the denominator of \<^verbatim>\<open>world2angular\<close> contracts
  an angular image point towards the centre of the image.
\<close>

definition angular_shrink :: "real \<Rightarrow> real \<Rightarrow> real" where
  "angular_shrink u v =
     (let s = sin (np_pi * sqrt ((2 * u - 1)\<^sup>2 + (2 * v - 1)\<^sup>2))
      in 2 * np_pi * s / (2 * np_pi * s + eps))"

subsection \<open>Arrays\<close>

text \<open>
  A numpy array is its shape and its elements.  Only the elements inside the shape mean
  anything.  Floats that may be \<^verbatim>\<open>nan\<close> are \<open>real option\<close>, as above.
\<close>

datatype error = AssertionError | TypeError | ValueError | IndexError

record 'a ndarray2 =
  shape2 :: "nat \<times> nat"
  elem2 :: "nat \<Rightarrow> nat \<Rightarrow> 'a"

record 'a ndarray3 =
  shape3 :: "nat \<times> nat \<times> nat"
  elem3 :: "nat \<Rightarrow> nat \<Rightarrow> nat \<Rightarrow> 'a"

text \<open>The validity mask as the caller passes it: its dtype is checked at run time.\<close>

datatype mask = BoolArray "bool ndarray2" | FloatArray "real ndarray2"

definition np_zeros :: "nat \<times> nat \<times> nat \<Rightarrow> real option ndarray3" where
  "np_zeros shp = \<lparr>shape3 = shp, elem3 = (\<lambda>i j c. Some 0)\<rparr>"

text \<open>\<^verbatim>\<open>np.linspace(start, stop, num)\<close>, end point included.\<close>

definition linspace :: "real \<Rightarrow> real \<Rightarrow> nat \<Rightarrow> real list" where
  "linspace start stop num =
     (if num = 1 then [start]
      else map (\<lambda>k. start + real k * ((stop - start) / real (num - 1))) [0..<num])"

text \<open>The slice \<^verbatim>\<open>a[1::2]\<close> of a one-dimensional array.\<close>

fun slice_1_2 :: "'a list \<Rightarrow> 'a list" where
  "slice_1_2 (x # y # xs) = y # slice_1_2 xs"
| "slice_1_2 xs = []"

text \<open>\<^verbatim>\<open>np.meshgrid(xs, ys)\<close> with the default \<^verbatim>\<open>xy\<close> indexing.\<close>

definition meshgrid :: "'a list \<Rightarrow> 'a list \<Rightarrow> 'a ndarray2 \<times> 'a ndarray2" where
  "meshgrid xs ys =
     (\<lparr>shape2 = (length ys, length xs), elem2 = (\<lambda>i j. xs ! j)\<rparr>,
      \<lparr>shape2 = (length ys, length xs), elem2 = (\<lambda>i j. ys ! i)\<rparr>)"

text \<open>\<^verbatim>\<open>a[i, :]\<close> and \<^verbatim>\<open>a[:, j]\<close>: an index outside the axis raises.\<close>

definition index_row :: "'a ndarray2 \<Rightarrow> nat \<Rightarrow> error + 'a list" where
  "index_row a i =
     (if i < fst (shape2 a) then Inr (map (\<lambda>j. elem2 a i j) [0..<snd (shape2 a)])
      else Inl IndexError)"

definition index_col :: "'a ndarray2 \<Rightarrow> nat \<Rightarrow> error + 'a list" where
  "index_col a j =
     (if j < snd (shape2 a) then Inr (map (\<lambda>i. elem2 a i j) [0..<fst (shape2 a)])
      else Inl IndexError)"

text \<open>\<^verbatim>\<open>a.flatten()\<close>, row-major.\<close>

definition flatten :: "'a ndarray2 \<Rightarrow> 'a list" where
  "flatten a =
     concat (map (\<lambda>i. map (\<lambda>j. elem2 a i j) [0..<snd (shape2 a)]) [0..<fst (shape2 a)])"

text \<open>\<^verbatim>\<open>np.vstack((a, b)).T\<close> for one-dimensional \<open>a\<close> and \<open>b\<close>: one row per pair.\<close>

definition vstack_T :: "'a list \<Rightarrow> 'a list \<Rightarrow> error + ('a \<times> 'a) list" where
  "vstack_T a b = (if length a = length b then Inr (zip a b) else Inl ValueError)"

text \<open>\<^verbatim>\<open>xs.reshape(m, n)\<close> of a one-dimensional array.\<close>

definition reshape :: "'a list \<Rightarrow> nat \<Rightarrow> nat \<Rightarrow> error + 'a ndarray2" where
  "reshape xs m n =
     (if length xs = m * n then Inr \<lparr>shape2 = (m, n), elem2 = (\<lambda>i j. xs ! (i * n + j))\<rparr>
      else Inl ValueError)"

text \<open>The view \<^verbatim>\<open>d[:, :, c]\<close> and the assignment \<^verbatim>\<open>d[:, :, c] = m\<close>.\<close>

definition channel :: "'a ndarray3 \<Rightarrow> nat \<Rightarrow> 'a ndarray2" where
  "channel d c =
     (case shape3 d of (h, w, n) \<Rightarrow> \<lparr>shape2 = (h, w), elem2 = (\<lambda>i j. elem3 d i j c)\<rparr>)"

definition assign_channel :: "'a ndarray3 \<Rightarrow> nat \<Rightarrow> 'a ndarray2 \<Rightarrow> 'a ndarray3" where
  "assign_channel d c m =
     d\<lparr>elem3 := (\<lambda>i j k. if k = c then elem2 m i j else elem3 d i j k)\<rparr>"

text \<open>The masked assignment \<^verbatim>\<open>d[:, :, c][np.invert(valid)] = x\<close>.\<close>

definition assign_masked :: "'a ndarray3 \<Rightarrow> nat \<Rightarrow> bool ndarray2 \<Rightarrow> 'a \<Rightarrow> 'a ndarray3" where
  "assign_masked d c valid x =
     (case shape3 d of (h, w, n) \<Rightarrow>
        d\<lparr>elem3 := (\<lambda>i j k. if k = c \<and> i < h \<and> j < w \<and> \<not> elem2 valid i j then x
                            else elem3 d i j k)\<rparr>)"

text \<open>
  \<^verbatim>\<open>scipy.interpolate.RegularGridInterpolator(coords, values, bounds_error=False)\<close>.
  The constructor refuses values whose shape is not the shape of the grid.  What the
  interpolator returns at a query point (\<^verbatim>\<open>nan\<close> outside the grid) is the parameter
  \<open>interp\<close>: the numerical core of the library is not part of this repository.
\<close>

type_synonym interpolator =
  "real list \<Rightarrow> real list \<Rightarrow> (nat \<Rightarrow> nat \<Rightarrow> real option) \<Rightarrow> real option \<times> real option \<Rightarrow> real option"

definition RegularGridInterpolator ::
  "interpolator \<Rightarrow> real list \<times> real list \<Rightarrow> real option ndarray2 \<Rightarrow>
   error + (real option \<times> real option \<Rightarrow> real option)" where
  "RegularGridInterpolator interp coords values =
     (case coords of (cols, rows) \<Rightarrow>
        if shape2 values = (length cols, length rows)
        then Inr (interp cols rows (elem2 values))
        else Inl ValueError)"

subsection \<open>The class \<^verbatim>\<open>EnvironmentMap\<close>\<close>

definition SUPPORTED_FORMATS :: "string list" where
  "SUPPORTED_FORMATS = [''angular'', ''skyangular'', ''latlong'']"

text \<open>\<^verbatim>\<open>str.lower\<close> on ASCII strings.\<close>

definition lower_char :: "char \<Rightarrow> char" where
  "lower_char c =
     (let n = (of_char c :: nat) in if 65 \<le> n \<and> n \<le> 90 then char_of (n + 32) else c)"

definition lower :: "string \<Rightarrow> string" where
  "lower s = map lower_char s"

text \<open>The attribute \<^verbatim>\<open>format_\<close> is the field \<open>format_tag\<close>.\<close>

record EnvironmentMap =
  data :: "real option ndarray3"
  format_tag :: string
  backgroundColor :: "real option list"

text \<open>
  A method that mutates the object returns what it raised, if anything, together with
  the object as the call leaves it: an exception does not undo earlier assignments.
\<close>

type_synonym outcome = "(error + unit) \<times> EnvironmentMap"

definition init :: "real option ndarray3 \<Rightarrow> string \<Rightarrow> error + EnvironmentMap" where
  "init im fmt =
     (if lower fmt \<in> set SUPPORTED_FORMATS
      then Inr \<lparr>data = im, format_tag = lower fmt, backgroundColor = [Some 0, Some 0, Some 0]\<rparr>
      else Inl AssertionError)"

definition imageCoordinates :: "EnvironmentMap \<Rightarrow> real ndarray2 \<times> real ndarray2" where
  "imageCoordinates self =
     (case shape3 (data self) of (h, w, n) \<Rightarrow>
        let cols = linspace 0 1 (w * 2 + 1);
            rows = linspace 0 1 (h * 2 + 1);
            cols = slice_1_2 cols;
            rows = slice_1_2 rows
        in meshgrid cols rows)"

text \<open>
  The pixel centres along an axis of \<open>n\<close> pixels, as \<^verbatim>\<open>imageCoordinates\<close> computes
  them: the odd-indexed points of \<open>2n + 1\<close> equally spaced points of \<open>[0, 1]\<close>.
\<close>

definition pixel_centres :: "nat \<Rightarrow> real list" where
  "pixel_centres n = slice_1_2 (linspace 0 1 (n * 2 + 1))"

text \<open>
  The transforms on arrays, elementwise.  Every call in the class passes arrays of one
  shape, that of the first argument; numpy's broadcasting is not modelled.
\<close>

definition on_grid2 ::
  "(real \<Rightarrow> real \<Rightarrow> real \<times> real \<times> real \<times> bool) \<Rightarrow> real ndarray2 \<Rightarrow> real ndarray2 \<Rightarrow>
   real ndarray2 \<times> real ndarray2 \<times> real ndarray2 \<times> bool ndarray2" where
  "on_grid2 func u v =
     (let w = (\<lambda>i j. func (elem2 u i j) (elem2 v i j))
      in (\<lparr>shape2 = shape2 u, elem2 = (\<lambda>i j. fst (w i j))\<rparr>,
          \<lparr>shape2 = shape2 u, elem2 = (\<lambda>i j. fst (snd (w i j)))\<rparr>,
          \<lparr>shape2 = shape2 u, elem2 = (\<lambda>i j. fst (snd (snd (w i j))))\<rparr>,
          \<lparr>shape2 = shape2 u, elem2 = (\<lambda>i j. snd (snd (snd (w i j))))\<rparr>))"

definition on_grid3 ::
  "(real \<Rightarrow> real \<Rightarrow> real \<Rightarrow> real option \<times> real option) \<Rightarrow>
   real ndarray2 \<Rightarrow> real ndarray2 \<Rightarrow> real ndarray2 \<Rightarrow>
   real option ndarray2 \<times> real option ndarray2" where
  "on_grid3 func x y z =
     (let w = (\<lambda>i j. func (elem2 x i j) (elem2 y i j) (elem2 z i j))
      in (\<lparr>shape2 = shape2 x, elem2 = (\<lambda>i j. fst (w i j))\<rparr>,
          \<lparr>shape2 = shape2 x, elem2 = (\<lambda>i j. snd (w i j))\<rparr>))"

text \<open>
  The dispatch is \<^verbatim>\<open>dict.get\<close>, which returns \<^verbatim>\<open>None\<close> for a missing key;
  calling \<^verbatim>\<open>None\<close> raises \<^verbatim>\<open>TypeError\<close>.
\<close>

definition image2world ::
  "EnvironmentMap \<Rightarrow> real ndarray2 \<Rightarrow> real ndarray2 \<Rightarrow>
   error + (real ndarray2 \<times> real ndarray2 \<times> real ndarray2 \<times> bool ndarray2)" where
  "image2world self u v =
     (case map_of [(''angular'', angular2world),
                   (''skyangular'', skyangular2world),
                   (''latlong'', latlong2world)] (format_tag self) of
        None \<Rightarrow> Inl TypeError
      | Some func \<Rightarrow> Inr (on_grid2 func u v))"

definition world2image ::
  "EnvironmentMap \<Rightarrow> real ndarray2 \<Rightarrow> real ndarray2 \<Rightarrow> real ndarray2 \<Rightarrow>
   error + (real option ndarray2 \<times> real option ndarray2)" where
  "world2image self x y z =
     (case map_of [(''angular'', world2angular),
                   (''skyangular'', world2skyangular),
                   (''latlong'', world2latlong)] (format_tag self) of
        None \<Rightarrow> Inl TypeError
      | Some func \<Rightarrow> Inr (on_grid3 func x y z))"

definition worldCoordinates ::
  "EnvironmentMap \<Rightarrow> error + (real ndarray2 \<times> real ndarray2 \<times> real ndarray2 \<times> bool ndarray2)" where
  "worldCoordinates self =
     (case imageCoordinates self of (u, v) \<Rightarrow> image2world self u v)"

text \<open>
  The loop of \<^verbatim>\<open>setBackgroundColor\<close> over the channels.  The right-hand side
  \<^verbatim>\<open>self.backgroundColor[c]\<close> is evaluated before the masked assignment, so a colour
  with too few entries raises after the earlier channels have been filled.
\<close>

fun fill_channels :: "nat list \<Rightarrow> bool ndarray2 \<Rightarrow> EnvironmentMap \<Rightarrow> outcome" where
  "fill_channels [] valid self = (Inr (), self)"
| "fill_channels (c # cs) valid self =
     (if c < length (backgroundColor self)
      then fill_channels cs valid
             (self\<lparr>data := assign_masked (data self) c valid (backgroundColor self ! c)\<rparr>)
      else (Inl IndexError, self))"

definition setBackgroundColor :: "EnvironmentMap \<Rightarrow> real option list \<Rightarrow> mask \<Rightarrow> outcome" where
  "setBackgroundColor self color valid =
     (case valid of
        FloatArray a \<Rightarrow> (Inl AssertionError, self)
      | BoolArray m \<Rightarrow>
          (case shape3 (data self) of (h, w, n) \<Rightarrow>
             if shape2 m \<noteq> (h, w) then (Inl AssertionError, self)
             else fill_channels [0..<n] m (self\<lparr>backgroundColor := color\<rparr>)))"

text \<open>
  The loop of \<^verbatim>\<open>interpolate\<close> over the channels: it fills the local buffer
  \<^verbatim>\<open>data\<close> from the pixels \<open>src\<close> of the map, which it does not touch.
\<close>

fun interp_channels ::
  "interpolator \<Rightarrow> real list \<times> real list \<Rightarrow> real option ndarray3 \<Rightarrow>
   (real option \<times> real option) list \<Rightarrow> nat list \<Rightarrow> real option ndarray3 \<Rightarrow>
   error + real option ndarray3" where
  "interp_channels interp coords src target [] d = Inr d"
| "interp_channels interp coords src target (c # cs) d =
     (case RegularGridInterpolator interp coords (channel src c) of
        Inl e \<Rightarrow> Inl e
      | Inr intmesh \<Rightarrow>
          let interpdata = map intmesh target
          in (case reshape interpdata (fst (shape3 d)) (fst (snd (shape3 d))) of
                Inl e \<Rightarrow> Inl e
              | Inr m \<Rightarrow> interp_channels interp coords src target cs (assign_channel d c m)))"

definition interpolate ::
  "EnvironmentMap \<Rightarrow> interpolator \<Rightarrow> real option ndarray2 \<Rightarrow> real option ndarray2 \<Rightarrow>
   mask \<Rightarrow> outcome" where
  "interpolate self interp u v valid =
     (case imageCoordinates self of (cols, rows) \<Rightarrow>
      case index_row cols 0 of Inl e \<Rightarrow> (Inl e, self) | Inr cols \<Rightarrow>
      case index_col rows 0 of Inl e \<Rightarrow> (Inl e, self) | Inr rows \<Rightarrow>
      case vstack_T (flatten u) (flatten v) of Inl e \<Rightarrow> (Inl e, self) | Inr target \<Rightarrow>
      case interp_channels interp (cols, rows) (data self) target
             [0..<snd (snd (shape3 (data self)))]
             (np_zeros (length cols, length rows, snd (snd (shape3 (data self))))) of
        Inl e \<Rightarrow> (Inl e, self)
      | Inr d \<Rightarrow> setBackgroundColor (self\<lparr>data := d\<rparr>) (backgroundColor self) valid)"

definition convertTo :: "EnvironmentMap \<Rightarrow> interpolator \<Rightarrow> string \<Rightarrow> outcome" where
  "convertTo self interp targetFormat =
     (if lower targetFormat \<notin> set SUPPORTED_FORMATS then (Inl AssertionError, self)
      else
        case init (np_zeros (shape3 (data self))) targetFormat of
          Inl e \<Rightarrow> (Inl e, self)
        | Inr eTmp \<Rightarrow>
        case worldCoordinates eTmp of
          Inl e \<Rightarrow> (Inl e, self)
        | Inr (dx, dy, dz, valid) \<Rightarrow>
        case world2image self dx dy dz of
          Inl e \<Rightarrow> (Inl e, self)
        | Inr (u, v) \<Rightarrow>
            interpolate (self\<lparr>format_tag := targetFormat\<rparr>) interp u v (BoolArray valid))"

subsection \<open>Concrete objects\<close>

text \<open>
  The map \<^verbatim>\<open>EnvironmentMap(np.zeros((h, w, n)), 'latlong')\<close>, an array filled with one
  value, and an interpolator that returns one value at every query point (\<open>None\<close> is
  \<^verbatim>\<open>nan\<close>, what scipy returns outside the grid).
\<close>

definition zeros_map :: "nat \<Rightarrow> nat \<Rightarrow> nat \<Rightarrow> EnvironmentMap" where
  "zeros_map h w n =
     \<lparr>data = np_zeros (h, w, n), format_tag = ''latlong'',
      backgroundColor = [Some 0, Some 0, Some 0]\<rparr>"

definition full :: "nat \<Rightarrow> nat \<Rightarrow> 'a \<Rightarrow> 'a ndarray2" where
  "full h w x = \<lparr>shape2 = (h, w), elem2 = (\<lambda>i j. x)\<rparr>"

definition const_interp :: "real option \<Rightarrow> interpolator" where
  "const_interp x = (\<lambda>cols rows values q. x)"

section \<open>Properties of the transforms\<close>

subsection \<open>The angle function\<close>

lemma cos_nonpos_upper: "pi / 2 \<le> t \<Longrightarrow> t \<le> pi \<Longrightarrow> cos t \<le> 0"
proof -
  assume a: "pi / 2 \<le> t" "t \<le> pi"
  have "0 \<le> sin (t - pi / 2)" using a by (intro sin_ge_zero) auto
  moreover have "sin (t - pi / 2) = - cos t" by (simp add: sin_diff)
  ultimately show ?thesis by simp
qed

lemma cos_nonpos_lower: "- pi \<le> t \<Longrightarrow> t \<le> - (pi / 2) \<Longrightarrow> cos t \<le> 0"
  using cos_nonpos_upper [of "- t"] by simp

lemma cos_pos_range: assumes "0 < cos t" "- pi < t" "t \<le> pi" shows "- (pi / 2) < t \<and> t < pi / 2"
proof -
  have "\<not> pi / 2 \<le> t" using cos_nonpos_upper [of t] assms by auto
  moreover have "\<not> t \<le> - (pi / 2)" using cos_nonpos_lower [of t] assms by auto
  ultimately show ?thesis by auto
qed

lemma tan_shift_minus: "tan (t - pi) = tan t"
  by (simp add: tan_def)
lemma tan_shift_plus: "tan (t + pi) = tan t"
  by (simp add: tan_def)

lemma arctan2_polar:
  assumes r: "0 < r" and lo: "- pi < t" and hi: "t \<le> pi"
  shows "arctan2 (r * sin t) (r * cos t) = t"
proof -
  have q: "(r * sin t) / (r * cos t) = tan t" using r by (simp add: tan_def)
  consider (pos) "0 < cos t" | (neg) "cos t < 0" | (zero) "cos t = 0" by linarith
  then show ?thesis
  proof cases
    case pos
    then have "- (pi / 2) < t \<and> t < pi / 2" using cos_pos_range lo hi by blast
    then have "arctan (tan t) = t" by (simp add: arctan_tan)
    moreover have "0 < r * cos t" using r pos by simp
    ultimately show ?thesis using q by (simp add: arctan2_def)
  next
    case neg
    have xneg: "r * cos t < 0" using r neg by (simp add: mult_pos_neg)
    have out: "\<not> (- (pi / 2) \<le> t \<and> t \<le> pi / 2)"
      using cos_ge_zero [of t] neg by auto
    show ?thesis
    proof (cases "0 \<le> sin t")
      case True
      have "\<not> t < 0"
      proof
        assume "t < 0"
        then have "0 < sin (- t)" using lo by (intro sin_gt_zero) auto
        then show False using True by simp
      qed
      then have rng: "pi / 2 < t" using out by auto
      have "arctan (tan (t - pi)) = t - pi"
        using rng hi by (intro arctan_tan) auto
      then have "arctan (tan t) = t - pi" by (simp add: tan_shift_minus)
      moreover have "0 \<le> r * sin t" using r True by simp
      ultimately show ?thesis using q xneg by (simp add: arctan2_def)
    next
      case False
      have "\<not> 0 \<le> t"
      proof
        assume "0 \<le> t"
        then have "0 \<le> sin t" using hi by (intro sin_ge_zero) auto
        then show False using False by simp
      qed
      then have rng: "t < - (pi / 2)" using out by auto
      have "arctan (tan (t + pi)) = t + pi"
        using rng lo by (intro arctan_tan) auto
      then have "arctan (tan t) = t + pi" by (simp add: tan_shift_plus)
      moreover have "r * sin t < 0" using r False by (simp add: mult_pos_neg)
      ultimately show ?thesis using q xneg by (simp add: arctan2_def)
    qed
  next
    case zero
    have "\<not> (- (pi / 2) < t \<and> t < pi / 2)" using cos_gt_zero_pi [of t] zero by auto
    moreover have "\<not> pi / 2 < t"
    proof
      assume a: "pi / 2 < t"
      have "0 < sin (t - pi / 2)"
        using a hi by (intro sin_gt_zero) auto
      then show False using zero by (simp add: sin_diff)
    qed
    moreover have "\<not> t < - (pi / 2)"
    proof
      assume a: "t < - (pi / 2)"
      have "0 < sin (- t - pi / 2)"
        using a lo by (intro sin_gt_zero) auto
      then show False using zero by (simp add: sin_diff)
    qed
    ultimately have "t = pi / 2 \<or> t = - (pi / 2)" by auto
    then show ?thesis
    proof
      assume e: "t = pi / 2"
      have "arctan2 (r * sin (pi / 2)) (r * cos (pi / 2)) = pi / 2"
        using r by (simp add: arctan2_def)
      then show ?thesis unfolding e .
    next
      assume e: "t = - (pi / 2)"
      have "arctan2 (r * sin (- (pi / 2))) (r * cos (- (pi / 2))) = - (pi / 2)"
        using r by (simp add: arctan2_def)
      then show ?thesis unfolding e .
    qed
  qed
qed

lemma sqrt_div_pos: "0 < x \<Longrightarrow> sqrt (1 + (y / x)\<^sup>2) = sqrt (x\<^sup>2 + y\<^sup>2) / x"
proof -
  assume x: "0 < x"
  have "1 + (y / x)\<^sup>2 = (x\<^sup>2 + y\<^sup>2) / x\<^sup>2" using x by (simp add: power_divide field_simps)
  then show ?thesis using x by (simp add: real_sqrt_divide)
qed

lemma sqrt_div_neg: "x < 0 \<Longrightarrow> sqrt (1 + (y / x)\<^sup>2) = sqrt (x\<^sup>2 + y\<^sup>2) / (- x)"
  using sqrt_div_pos [of "- x" y] by simp

lemma cos_arctan2: "x \<noteq> 0 \<or> y \<noteq> 0 \<Longrightarrow> cos (arctan2 y x) = x / sqrt (x\<^sup>2 + y\<^sup>2)"
proof -
  assume nz: "x \<noteq> 0 \<or> y \<noteq> 0"
  consider (pos) "0 < x" | (neg) "x < 0" | (zero) "x = 0" by linarith
  then show ?thesis
  proof cases
    case pos
    then show ?thesis by (simp add: arctan2_def cos_arctan sqrt_div_pos)
  next
    case neg
    then show ?thesis by (simp add: arctan2_def cos_arctan sqrt_div_neg cos_add cos_diff)
  next
    case zero
    then show ?thesis using nz by (auto simp: arctan2_def)
  qed
qed

lemma sin_arctan2: "x \<noteq> 0 \<or> y \<noteq> 0 \<Longrightarrow> sin (arctan2 y x) = y / sqrt (x\<^sup>2 + y\<^sup>2)"
proof -
  assume nz: "x \<noteq> 0 \<or> y \<noteq> 0"
  consider (pos) "0 < x" | (neg) "x < 0" | (zero) "x = 0" by linarith
  then show ?thesis
  proof cases
    case pos
    then show ?thesis by (simp add: arctan2_def sin_arctan sqrt_div_pos)
  next
    case neg
    then show ?thesis by (simp add: arctan2_def sin_arctan sqrt_div_neg sin_add sin_diff)
  next
    case zero
    then show ?thesis using nz by (auto simp: arctan2_def real_sqrt_abs abs_if)
  qed
qed

subsection \<open>The constant \<^verbatim>\<open>np.pi\<close>\<close>

lemma arctan_partial_sums:
  fixes x :: real
  assumes x0: "0 \<le> x" and x1: "x \<le> 1"
  shows "(\<Sum>k<2 * n. (- 1) ^ k * (1 / real (k * 2 + 1) * x ^ (k * 2 + 1))) \<le> arctan x"
    and "arctan x \<le> (\<Sum>k<2 * n + 1. (- 1) ^ k * (1 / real (k * 2 + 1) * x ^ (k * 2 + 1)))"
proof -
  let ?a = "\<lambda>k. 1 / real (k * 2 + 1) * x ^ (k * 2 + 1)"
  have ax: "\<bar>x\<bar> \<le> 1" using x0 x1 by simp
  have lim: "?a \<longlonglongrightarrow> 0" by (rule zeroseq_arctan_series [OF ax])
  have pos: "0 \<le> ?a k" for k using x0 by simp
  have dec: "?a (Suc k) \<le> ?a k" for k
  proof -
    have p: "x ^ (Suc k * 2 + 1) \<le> x ^ (k * 2 + 1)"
      using x0 x1 by (intro power_decreasing) auto
    have q: "1 / real (Suc k * 2 + 1) \<le> 1 / real (k * 2 + 1)"
      by (intro divide_left_mono) auto
    show ?thesis using x0 by (intro mult_mono p q) auto
  qed
  have s: "arctan x = (\<Sum>k. (- 1) ^ k * ?a k)" by (rule arctan_series [OF ax])
  show "(\<Sum>k<2 * n. (- 1) ^ k * ?a k) \<le> arctan x"
    unfolding s by (rule summable_Leibniz'(2) [OF lim pos dec])
  show "arctan x \<le> (\<Sum>k<2 * n + 1. (- 1) ^ k * ?a k)"
    unfolding s by (rule summable_Leibniz'(4) [OF lim pos dec])
qed

lemma pi_by_arctan: "pi = 16 * arctan (1 / 5) - 4 * arctan (1 / 239)"
  using machin by simp

lemma pi_lower: "3141592653589793238 / 1000000000000000000 \<le> pi"
  unfolding pi_by_arctan
  using arctan_partial_sums(1) [of "1 / 5" 7] arctan_partial_sums(2) [of "1 / 239" 2]
  by (simp add: eval_nat_numeral)

lemma pi_upper: "pi \<le> 314159265358979324 / 100000000000000000"
  unfolding pi_by_arctan
  using arctan_partial_sums(2) [of "1 / 5" 7] arctan_partial_sums(1) [of "1 / 239" 2]
  by (simp add: eval_nat_numeral)

lemma np_pi_pos: "0 < np_pi"
  by (simp add: np_pi_def)

lemma np_pi_less_pi: "np_pi < pi"
  using pi_lower by (simp add: np_pi_def)

lemma np_pi_gap_lower: "122 / 10 ^ 18 \<le> pi - np_pi"
  using pi_lower by (simp add: np_pi_def)

lemma np_pi_gap_upper: "pi - np_pi \<le> 125 / 10 ^ 18"
  using pi_upper by (simp add: np_pi_def)

lemma sin_np_pi_upper: "sin np_pi \<le> 125 / 10 ^ 18"
proof -
  have "sin np_pi = sin (pi - np_pi)" by simp
  also have "\<dots> \<le> pi - np_pi" using np_pi_less_pi by (intro sin_x_le_x) simp
  finally show ?thesis using np_pi_gap_upper by linarith
qed

lemma sin_np_pi_lower: "121 / 10 ^ 18 \<le> sin np_pi"
proof -
  define d where "d = pi - np_pi"
  have d: "122 / 10 ^ 18 \<le> d" "d \<le> 125 / 10 ^ 18"
    unfolding d_def by (rule np_pi_gap_lower, rule np_pi_gap_upper)
  have d0: "0 \<le> d" using d(1) by simp
  have "\<bar>sin d - (\<Sum>m<3. sin_coeff m * d ^ m)\<bar> \<le> inverse (fact 3) * \<bar>d\<bar> ^ 3"
    by (rule Maclaurin_sin_bound)
  then have "\<bar>sin d - d\<bar> \<le> d ^ 3 / 6"
    using d0 by (simp add: sin_coeff_def eval_nat_numeral)
  then have low: "d - d ^ 3 / 6 \<le> sin d" by linarith
  have "d ^ 3 = d * (d * d)" by (simp add: eval_nat_numeral)
  also have "\<dots> \<le> d * (1 * 1)"
    using d d0 by (intro mult_left_mono mult_mono) auto
  finally have "d ^ 3 / 6 \<le> d / 6" by simp
  moreover have "d ^ 3 / 6 \<le> 1 / 10 ^ 18"
  proof -
    have "d * (d * d) \<le> d * ((1 / 10 ^ 9) * (1 / 10 ^ 9))"
      using d d0 by (intro mult_left_mono mult_mono) auto
    also have "\<dots> \<le> 1 * ((1 / 10 ^ 9) * (1 / 10 ^ 9))"
      using d by (intro mult_right_mono) auto
    finally show ?thesis by (simp add: eval_nat_numeral)
  qed
  ultimately have "122 / 10 ^ 18 - 1 / 10 ^ 18 \<le> sin d" using low d(1) by linarith
  moreover have "sin d = sin np_pi" by (simp add: d_def)
  ultimately show ?thesis by simp
qed

subsection \<open>Round trips\<close>

lemma latlong_roundtrip:
  assumes "0 \<le> u" "u \<le> 1" "0 < v" "v \<le> 1"
  shows "roundtrip world2latlong latlong2world u v = (Some u, Some v)"
proof -
  let ?t = "np_pi * (u * 2 - 1)"
  let ?p = "np_pi * v"
  have p_pos: "0 < ?p" using assms np_pi_pos by simp
  have p_le: "?p \<le> np_pi" using assms np_pi_pos by (simp add: mult_le_cancel_left2)
  have s: "0 < sin ?p" using p_pos p_le np_pi_less_pi by (intro sin_gt_zero) linarith+
  have "np_pi * (- 1) \<le> ?t" using assms np_pi_pos by (intro mult_left_mono) auto
  then have lo: "- pi < ?t" using np_pi_less_pi by simp
  have "?t \<le> np_pi * 1" using assms np_pi_pos by (intro mult_left_mono) auto
  then have hi: "?t \<le> pi" using np_pi_less_pi by simp
  have a: "arctan2 (sin ?p * sin ?t) (sin ?p * cos ?t) = ?t"
    by (rule arctan2_polar [OF s lo hi])
  have "0 \<le> ?p" "?p \<le> pi" using p_pos p_le np_pi_less_pi by linarith+
  then have c: "arccos (cos ?p) = ?p" by (rule arccos_cos)
  have u': "(1 + 1 / np_pi * ?t) / 2 = u" using np_pi_pos by (simp add: field_simps)
  have v': "1 / np_pi * ?p = v" using np_pi_pos by simp
  show ?thesis
    unfolding roundtrip_def latlong2world_def world2latlong_def Let_def np_arccos_def
    using a c u' v' by simp
qed

lemma latlong_roundtrip_pole:
  "roundtrip world2latlong latlong2world (1 / 2) 0 = (Some (1 / 2), Some 0)"
  by (simp add: roundtrip_def latlong2world_def world2latlong_def arctan2_def np_arccos_def)

lemma disk_radius:
  "((u - 1 / 2)\<^sup>2 + (v - 1 / 2)\<^sup>2 \<le> 1 / 4) = (sqrt ((2 * u - 1)\<^sup>2 + (2 * v - 1)\<^sup>2) \<le> (1::real))"
proof -
  have e: "(2 * u - 1)\<^sup>2 + (2 * v - 1)\<^sup>2 = 4 * ((u - 1 / 2)\<^sup>2 + (v - 1 / 2)\<^sup>2)"
    by (simp add: power2_eq_square algebra_simps)
  have "(sqrt ((2 * u - 1)\<^sup>2 + (2 * v - 1)\<^sup>2) \<le> 1) = ((2 * u - 1)\<^sup>2 + (2 * v - 1)\<^sup>2 \<le> 1)"
    by simp
  then show ?thesis unfolding e by auto
qed

lemma sqrt_scaled_unit:
  assumes "0 \<le> (s::real)" "c\<^sup>2 + d\<^sup>2 = 1"
  shows "sqrt ((s * c)\<^sup>2 + (s * d)\<^sup>2) = s"
proof -
  have "(s * c)\<^sup>2 + (s * d)\<^sup>2 = s\<^sup>2 * (c\<^sup>2 + d\<^sup>2)"
    by (simp add: power_mult_distrib algebra_simps)
  then show ?thesis using assms by simp
qed

lemma sky_roundtrip_pos:
  assumes rho: "0 < sqrt ((2 * u - 1)\<^sup>2 + (2 * v - 1)\<^sup>2)" "sqrt ((2 * u - 1)\<^sup>2 + (2 * v - 1)\<^sup>2) \<le> 1"
  shows "roundtrip world2skyangular skyangular2world u v = (Some u, Some v)"
proof -
  define a where "a = 2 * u - 1"
  define b where "b = - 2 * v + 1"
  define rho where "rho = sqrt (a\<^sup>2 + b\<^sup>2)"
  define th where "th = arctan2 b a"
  define ph where "ph = np_pi / 2 * rho"
  have b2: "(2 * v - 1)\<^sup>2 = b\<^sup>2" by (simp add: b_def power2_eq_square algebra_simps)
  have rho_pos: "0 < rho" and rho_le: "rho \<le> 1"
    using rho unfolding rho_def a_def b2 by auto
  have nz: "a \<noteq> 0 \<or> b \<noteq> 0" using rho_pos unfolding rho_def by auto
  have ct: "cos th = a / rho" unfolding th_def rho_def by (rule cos_arctan2 [OF nz])
  have st: "sin th = b / rho" unfolding th_def rho_def by (rule sin_arctan2 [OF nz])
  have ph_pos: "0 < ph" unfolding ph_def using rho_pos np_pi_pos by simp
  have "np_pi / 2 * rho \<le> np_pi / 2 * 1" using rho_le np_pi_pos by (intro mult_left_mono) auto
  then have ph_le: "ph < pi / 2" using np_pi_less_pi by (simp add: ph_def)
  have S: "0 < sin ph" using ph_pos ph_le pi_gt_zero by (intro sin_gt_zero) linarith+
  have unit: "(cos th)\<^sup>2 + (sin th)\<^sup>2 = 1" by (simp add: add.commute)
  have len: "sqrt ((sin ph * cos th)\<^sup>2 + (sin ph * sin th)\<^sup>2) = sin ph"
    using S unit by (intro sqrt_scaled_unit) auto
  have "arctan2 (1 * sin ph) (1 * cos ph) = ph"
    using ph_pos ph_le pi_gt_zero by (intro arctan2_polar) linarith+
  then have zen: "arctan2 (sin ph) (cos ph) = ph" by simp
  have xz: "sin ph * sin th \<noteq> 0 \<or> sin ph * cos th \<noteq> 0"
  proof (rule ccontr)
    assume "\<not> ?thesis"
    then have "sin th = 0" "cos th = 0" using S by auto
    then show False using unit by simp
  qed
  have len': "sqrt ((sin ph * sin th)\<^sup>2 + (sin ph * cos th)\<^sup>2) = sin ph"
    using len by (simp add: add.commute)
  have s': "sin (arctan2 (sin ph * cos th) (sin ph * sin th)) = cos th"
    using sin_arctan2 [OF xz] S by (simp add: len')
  have c': "cos (arctan2 (sin ph * cos th) (sin ph * sin th)) = sin th"
    using cos_arctan2 [OF xz] S by (simp add: len')
  have r: "ph / (np_pi / 2) = rho" using np_pi_pos by (simp add: ph_def)
  have u': "rho * cos th / 2 + 1 / 2 = u" using rho_pos by (simp add: ct a_def field_simps)
  have v': "1 / 2 - rho * sin th / 2 = v" using rho_pos by (simp add: st b_def field_simps)
  have "roundtrip world2skyangular skyangular2world u v =
        (let x = sin ph * cos th; z = sin ph * sin th; y = cos ph in world2skyangular x y z)"
    unfolding roundtrip_def skyangular2world_def Let_def th_def ph_def rho_def a_def b_def b2
    by (simp add: b2 [unfolded b_def])
  also have "\<dots> = (Some u, Some v)"
    unfolding world2skyangular_def Let_def
    by (simp only: len zen s' c' r u' v')
  finally show ?thesis .
qed

lemma centre_coords:
  assumes "sqrt ((2 * u - 1)\<^sup>2 + (2 * v - 1)\<^sup>2) = 0"
  shows "u = 1 / 2 \<and> v = 1 / (2::real)"
proof -
  have "(2 * u - 1)\<^sup>2 + (2 * v - 1)\<^sup>2 = 0" using assms by simp
  then have "2 * u - 1 = 0 \<and> 2 * v - 1 = 0" by (simp add: sum_power2_eq_zero_iff)
  then show ?thesis by auto
qed

lemma off_centre:
  assumes "u \<noteq> 1 / 2 \<or> v \<noteq> 1 / (2::real)"
  shows "0 < sqrt ((2 * u - 1)\<^sup>2 + (2 * v - 1)\<^sup>2)"
proof -
  have "sqrt ((2 * u - 1)\<^sup>2 + (2 * v - 1)\<^sup>2) \<noteq> 0" using centre_coords [of u v] assms by blast
  moreover have "0 \<le> sqrt ((2 * u - 1)\<^sup>2 + (2 * v - 1)\<^sup>2)"
    by (intro real_sqrt_ge_zero add_nonneg_nonneg zero_le_power2)
  ultimately show ?thesis by linarith
qed

lemma sky_roundtrip_centre:
  "roundtrip world2skyangular skyangular2world (1 / 2) (1 / 2) = (Some (1 / 2), Some (1 / 2))"
  by (simp add: roundtrip_def skyangular2world_def world2skyangular_def arctan2_def)

lemma sky_roundtrip:
  assumes "(u - 1 / 2)\<^sup>2 + (v - 1 / 2)\<^sup>2 \<le> 1 / 4"
  shows "roundtrip world2skyangular skyangular2world u v = (Some u, Some v)"
proof (cases "u = 1 / 2 \<and> v = 1 / 2")
  case True
  then have e: "u = 1 / 2" "v = 1 / 2" by simp_all
  show ?thesis unfolding e by (rule sky_roundtrip_centre)
next
  case False
  then have "0 < sqrt ((2 * u - 1)\<^sup>2 + (2 * v - 1)\<^sup>2)" by (intro off_centre) blast
  moreover have "sqrt ((2 * u - 1)\<^sup>2 + (2 * v - 1)\<^sup>2) \<le> 1"
    using assms by (simp only: disk_radius)
  ultimately show ?thesis by (rule sky_roundtrip_pos)
qed

lemma eps_pos: "0 < eps"
  by (simp add: eps_def)

lemma angular_sine_pos:
  assumes "0 < sqrt ((2 * u - 1)\<^sup>2 + (2 * v - 1)\<^sup>2)" "sqrt ((2 * u - 1)\<^sup>2 + (2 * v - 1)\<^sup>2) \<le> 1"
  shows "0 < sin (np_pi * sqrt ((2 * u - 1)\<^sup>2 + (2 * v - 1)\<^sup>2))"
proof -
  let ?r = "sqrt ((2 * u - 1)\<^sup>2 + (2 * v - 1)\<^sup>2)"
  have "0 < np_pi * ?r" using assms np_pi_pos by simp
  moreover have "np_pi * ?r \<le> np_pi * 1" using assms np_pi_pos by (intro mult_left_mono) auto
  then have "np_pi * ?r < pi" using np_pi_less_pi by simp
  ultimately show ?thesis by (rule sin_gt_zero)
qed

lemma angular_roundtrip_pos:
  assumes rho: "0 < sqrt ((2 * u - 1)\<^sup>2 + (2 * v - 1)\<^sup>2)" "sqrt ((2 * u - 1)\<^sup>2 + (2 * v - 1)\<^sup>2) \<le> 1"
  shows "roundtrip world2angular angular2world u v =
         (Some (1 / 2 + angular_shrink u v * (u - 1 / 2)), Some (1 / 2 + angular_shrink u v * (v - 1 / 2)))"
proof -
  define a where "a = 2 * u - 1"
  define b where "b = - 2 * v + 1"
  define rho where "rho = sqrt (a\<^sup>2 + b\<^sup>2)"
  define th where "th = arctan2 b a"
  define ph where "ph = np_pi * rho"
  define dn where "dn = 2 * np_pi * sin ph + eps"
  have b2: "(2 * v - 1)\<^sup>2 = b\<^sup>2" by (simp add: b_def power2_eq_square algebra_simps)
  have rho_pos: "0 < rho" and rho_le: "rho \<le> 1"
    using rho unfolding rho_def a_def b2 by auto
  have nz: "a \<noteq> 0 \<or> b \<noteq> 0" using rho_pos unfolding rho_def by auto
  have ct: "cos th = a / rho" unfolding th_def rho_def by (rule cos_arctan2 [OF nz])
  have st: "sin th = b / rho" unfolding th_def rho_def by (rule sin_arctan2 [OF nz])
  have ph_pos: "0 \<le> ph" unfolding ph_def using rho_pos np_pi_pos by simp
  have "np_pi * rho \<le> np_pi * 1" using rho_le np_pi_pos by (intro mult_left_mono) auto
  then have ph_le: "ph \<le> pi" using np_pi_less_pi by (simp add: ph_def)
  have S: "0 \<le> sin ph" using ph_pos ph_le by (rule sin_ge_zero)
  have dn_pos: "0 < dn" unfolding dn_def using S eps_pos np_pi_pos
    by (intro add_nonneg_pos mult_nonneg_nonneg) auto
  have unit: "(cos th)\<^sup>2 + (sin th)\<^sup>2 = 1" by (simp add: add.commute)
  have len: "sqrt ((sin ph * cos th)\<^sup>2 + (sin ph * sin th)\<^sup>2) = sin ph"
    using S unit by (rule sqrt_scaled_unit)
  have ac: "np_arccos (- (- cos ph)) = Some ph"
    using arccos_cos [OF ph_pos ph_le] by (simp add: np_arccos_def)
  have dv: "np_divide (Some ph) dn = Some (ph / dn)"
    using dn_pos by (simp add: np_divide_def)
  have k: "angular_shrink u v = 2 * np_pi * sin ph / dn"
    unfolding angular_shrink_def Let_def dn_def ph_def rho_def a_def b2 [symmetric] ..
  have pc: "ph * cos th = np_pi * a" using rho_pos by (simp add: ct ph_def)
  have ps: "ph * sin th = np_pi * b" using rho_pos by (simp add: st ph_def)
  have "ph / dn * (sin ph * cos th) = sin ph / dn * (ph * cos th)" by simp
  also have "\<dots> = 2 * np_pi * sin ph / dn * (u - 1 / 2)"
    unfolding pc using dn_pos by (simp add: a_def field_simps)
  finally have u': "1 / 2 + ph / dn * (sin ph * cos th) = 1 / 2 + 2 * np_pi * sin ph / dn * (u - 1 / 2)"
    by simp
  have "ph / dn * (sin ph * sin th) = sin ph / dn * (ph * sin th)" by simp
  also have "\<dots> = - (2 * np_pi * sin ph / dn * (v - 1 / 2))"
    unfolding ps using dn_pos by (simp add: b_def field_simps)
  finally have v': "1 / 2 - ph / dn * (sin ph * sin th) = 1 / 2 + 2 * np_pi * sin ph / dn * (v - 1 / 2)"
    by simp
  have "roundtrip world2angular angular2world u v =
        (let x = sin ph * cos th; y = sin ph * sin th; z = - cos ph in world2angular x y z)"
    unfolding roundtrip_def angular2world_def Let_def th_def ph_def rho_def a_def b_def
    by (simp add: b2 [unfolded b_def])
  also have "\<dots> = (Some (1 / 2 + ph / dn * (sin ph * cos th)), Some (1 / 2 - ph / dn * (sin ph * sin th)))"
    unfolding world2angular_def Let_def len ac dn_def [symmetric] dv by simp
  finally show ?thesis unfolding k u' v' .
qed

lemma angular_roundtrip_centre:
  "roundtrip world2angular angular2world (1 / 2) (1 / 2) = (Some (1 / 2), Some (1 / 2))"
  by (simp add: roundtrip_def angular2world_def world2angular_def arctan2_def np_arccos_def
      np_divide_def eps_def)

lemma angular_roundtrip:
  assumes "(u - 1 / 2)\<^sup>2 + (v - 1 / 2)\<^sup>2 \<le> 1 / 4"
  shows "roundtrip world2angular angular2world u v =
         (Some (1 / 2 + angular_shrink u v * (u - 1 / 2)), Some (1 / 2 + angular_shrink u v * (v - 1 / 2)))"
proof (cases "u = 1 / 2 \<and> v = 1 / 2")
  case True
  then have e: "u = 1 / 2" "v = 1 / 2" by simp_all
  show ?thesis unfolding e by (simp add: angular_roundtrip_centre)
next
  case False
  then have "0 < sqrt ((2 * u - 1)\<^sup>2 + (2 * v - 1)\<^sup>2)" by (intro off_centre) blast
  moreover have "sqrt ((2 * u - 1)\<^sup>2 + (2 * v - 1)\<^sup>2) \<le> 1"
    using assms by (simp only: disk_radius)
  ultimately show ?thesis by (rule angular_roundtrip_pos)
qed

lemma angular_shrink_range:
  assumes "(u - 1 / 2)\<^sup>2 + (v - 1 / 2)\<^sup>2 \<le> 1 / 4"
  shows "0 \<le> angular_shrink u v \<and> angular_shrink u v < 1"
proof -
  define rho where "rho = sqrt ((2 * u - 1)\<^sup>2 + (2 * v - 1)\<^sup>2)"
  have "0 \<le> rho" unfolding rho_def
    by (intro real_sqrt_ge_zero add_nonneg_nonneg zero_le_power2)
  moreover have "rho \<le> 1" unfolding rho_def using assms by (simp only: disk_radius)
  ultimately have "0 \<le> np_pi * rho" "np_pi * rho \<le> np_pi * 1"
    using np_pi_pos by (auto intro: mult_left_mono)
  then have "0 \<le> np_pi * rho" "np_pi * rho \<le> pi" using np_pi_less_pi by simp_all
  then have S: "0 \<le> sin (np_pi * rho)" by (rule sin_ge_zero)
  then have n: "0 \<le> 2 * np_pi * sin (np_pi * rho)" using np_pi_pos by simp
  have k: "angular_shrink u v = 2 * np_pi * sin (np_pi * rho) / (2 * np_pi * sin (np_pi * rho) + eps)"
    by (simp add: angular_shrink_def rho_def Let_def)
  show ?thesis unfolding k using n eps_pos by (simp add: field_simps)
qed

lemma angular_shrink_rim: "3 / 4 < angular_shrink 1 (1 / 2) \<and> angular_shrink 1 (1 / 2) < 4 / 5"
proof -
  define a where "a = 2 * np_pi * sin np_pi"
  have k: "angular_shrink 1 (1 / 2) = a / (a + eps)"
    by (simp add: angular_shrink_def a_def Let_def)
  have lo: "2 * np_pi * (121 / 10 ^ 18) \<le> a"
    unfolding a_def using sin_np_pi_lower np_pi_pos by (intro mult_left_mono) auto
  have hi: "a \<le> 2 * np_pi * (125 / 10 ^ 18)"
    unfolding a_def using sin_np_pi_upper np_pi_pos by (intro mult_left_mono) auto
  have "3 * eps < 2 * np_pi * (121 / 10 ^ 18)" by (simp add: eps_def np_pi_def)
  with lo have a3: "3 * eps < a" by linarith
  have "2 * np_pi * (125 / 10 ^ 18) < 4 * eps" by (simp add: eps_def np_pi_def)
  with hi have a4: "a < 4 * eps" by linarith
  have pos: "0 < a + eps" using a3 eps_pos by linarith
  show ?thesis unfolding k using a3 a4 pos by (simp add: field_simps)
qed

subsection \<open>Claims about the transforms\<close>

lemma half_dist: assumes "(u - 1 / 2)\<^sup>2 + (v - 1 / 2)\<^sup>2 \<le> 1 / (4::real)" shows "\<bar>u - 1 / 2\<bar> \<le> 1 / 2"
proof -
  have "0 \<le> (v - 1 / 2)\<^sup>2" by (rule zero_le_power2)
  with assms have "(u - 1 / 2)\<^sup>2 \<le> 1 / 4" by linarith
  moreover have "(1 / 2)\<^sup>2 = 1 / (4::real)" by (simp add: power2_eq_square)
  ultimately have "(u - 1 / 2)\<^sup>2 \<le> (1 / 2)\<^sup>2" by simp
  then show ?thesis using abs_le_square_iff [of "u - 1 / 2" "1 / 2"] by simp
qed

lemma angular_deviation:
  assumes d: "\<bar>t - 1 / 2\<bar> \<le> 1 / 2" and s: "0 < s"
  shows "\<bar>(1 / 2 + 2 * np_pi * s / (2 * np_pi * s + eps) * (t - 1 / 2)) - t\<bar> \<le> eps / (4 * np_pi * s)"
proof -
  define dn where "dn = 2 * np_pi * s + eps"
  have p: "0 < 2 * np_pi * s" using s np_pi_pos by simp
  have dn: "0 < dn" unfolding dn_def using p eps_pos by linarith
  have "(1 / 2 + 2 * np_pi * s / dn * (t - 1 / 2)) - t = - (eps / dn) * (t - 1 / 2)"
    using dn by (simp add: dn_def field_simps)
  then have "\<bar>(1 / 2 + 2 * np_pi * s / dn * (t - 1 / 2)) - t\<bar> = eps / dn * \<bar>t - 1 / 2\<bar>"
    using dn eps_pos by (simp add: abs_mult)
  also have "\<dots> \<le> eps / dn * (1 / 2)"
    using d dn eps_pos by (intro mult_left_mono) auto
  also have "\<dots> \<le> eps / (2 * np_pi * s) * (1 / 2)"
  proof -
    have "eps / dn \<le> eps / (2 * np_pi * s)"
      using p eps_pos by (intro divide_left_mono) (auto simp: dn_def)
    then show ?thesis by simp
  qed
  also have "\<dots> = eps / (4 * np_pi * s)" by simp
  finally show ?thesis unfolding dn_def .
qed

text \<open>
  C1, as stated, fails.  At the pole \<open>v = 0\<close> of the latitude-longitude map every \<open>u\<close>
  is the same direction \<open>(0, 1, 0)\<close>, and the way back returns \<open>u = 1/2\<close>: the valid
  point \<open>(1/4, 0)\<close> comes back as \<open>(1/2, 0)\<close>.  On the rim of the angular disk the sine
  of the zenith angle is \<^verbatim>\<open>sin(np.pi)\<close>, smaller than the epsilon in the denominator
  of \<^verbatim>\<open>world2angular\<close>: the valid point \<open>(1, 1/2)\<close> comes back with \<open>v = 1/2\<close> and
  \<open>u = 1/2 + k/2\<close> where \<open>3/4 < k < 4/5\<close>, that is with \<open>u\<close> between \<open>7/8\<close> and
  \<open>9/10\<close>.
\<close>

theorem roundtrip_not_identity:
  "snd (snd (snd (latlong2world (1 / 4) 0))) \<and>
   roundtrip world2latlong latlong2world (1 / 4) 0 = (Some (1 / 2), Some 0) \<and>
   snd (snd (snd (angular2world 1 (1 / 2)))) \<and>
   roundtrip world2angular angular2world 1 (1 / 2) =
     (Some (1 / 2 + angular_shrink 1 (1 / 2) * (1 / 2)), Some (1 / 2)) \<and>
   3 / 4 < angular_shrink 1 (1 / 2) \<and> angular_shrink 1 (1 / 2) < 4 / 5"
proof -
  have ll: "snd (snd (snd (latlong2world (1 / 4) 0))) \<and>
      roundtrip world2latlong latlong2world (1 / 4) 0 = (Some (1 / 2), Some 0)"
    by (simp add: roundtrip_def latlong2world_def world2latlong_def arctan2_def np_arccos_def)
  have v: "snd (snd (snd (angular2world 1 (1 / 2))))"
    by (simp add: angular2world_def Let_def power2_eq_square)
  have d: "(1 - 1 / 2)\<^sup>2 + (1 / 2 - 1 / 2)\<^sup>2 \<le> 1 / (4::real)"
    by (simp add: power2_eq_square)
  from angular_roundtrip [OF d] have
    "roundtrip world2angular angular2world 1 (1 / 2) =
       (Some (1 / 2 + angular_shrink 1 (1 / 2) * (1 / 2)), Some (1 / 2))"
    by simp
  with ll v angular_shrink_rim show ?thesis by simp
qed

text \<open>
  C1, amended.  With \<^verbatim>\<open>np.pi\<close> the double it is and the arithmetic exact otherwise,
  the composition of image-to-world with world-to-image
  \<^item> is the identity for latitude-longitude points with \<open>0 \<le> u \<le> 1\<close> and
    \<open>0 < v \<le> 1\<close>, and at \<open>(1/2, 0)\<close>: the unit square without the other points of
    the pole \<open>v = 0\<close>;
  \<^item> is the identity for sky-angular points on the whole valid disk;
  \<^item> contracts an angular point of the valid disk towards the centre \<open>(1/2, 1/2)\<close> by the
    factor \<open>angular_shrink u v\<close>, which lies in \<open>[0, 1)\<close>: the centre comes back as
    itself, and at every other point the sine \<open>s\<close> of the zenith angle is positive and
    both coordinates come back within \<open>eps / (4 * np_pi * s)\<close> of the original.
\<close>

theorem roundtrip_amended:
  "(0 \<le> u \<and> u \<le> 1 \<and> 0 \<le> v \<and> v \<le> 1 \<and> (v = 0 \<longrightarrow> u = 1 / 2) \<longrightarrow>
      roundtrip world2latlong latlong2world u v = (Some u, Some v)) \<and>
   ((u - 1 / 2)\<^sup>2 + (v - 1 / 2)\<^sup>2 \<le> 1 / 4 \<longrightarrow>
      roundtrip world2skyangular skyangular2world u v = (Some u, Some v)) \<and>
   ((u - 1 / 2)\<^sup>2 + (v - 1 / 2)\<^sup>2 \<le> 1 / 4 \<longrightarrow>
      (\<exists>u' v'. roundtrip world2angular angular2world u v = (Some u', Some v') \<and>
         u' - 1 / 2 = angular_shrink u v * (u - 1 / 2) \<and>
         v' - 1 / 2 = angular_shrink u v * (v - 1 / 2) \<and>
         0 \<le> angular_shrink u v \<and> angular_shrink u v < 1 \<and>
         (u = 1 / 2 \<and> v = 1 / 2 \<longrightarrow> u' = u \<and> v' = v) \<and>
         (u \<noteq> 1 / 2 \<or> v \<noteq> 1 / 2 \<longrightarrow>
            0 < sin (np_pi * sqrt ((2 * u - 1)\<^sup>2 + (2 * v - 1)\<^sup>2)) \<and>
            \<bar>u' - u\<bar> \<le> eps / (4 * np_pi * sin (np_pi * sqrt ((2 * u - 1)\<^sup>2 + (2 * v - 1)\<^sup>2))) \<and>
            \<bar>v' - v\<bar> \<le> eps / (4 * np_pi * sin (np_pi * sqrt ((2 * u - 1)\<^sup>2 + (2 * v - 1)\<^sup>2))))))"
proof (intro conjI impI)
  assume a: "0 \<le> u \<and> u \<le> 1 \<and> 0 \<le> v \<and> v \<le> 1 \<and> (v = 0 \<longrightarrow> u = 1 / 2)"
  show "roundtrip world2latlong latlong2world u v = (Some u, Some v)"
  proof (cases "v = 0")
    case True
    with a have e: "u = 1 / 2" "v = 0" by simp_all
    show ?thesis unfolding e by (rule latlong_roundtrip_pole)
  next
    case False
    with a have "0 \<le> u" "u \<le> 1" "0 < v" "v \<le> 1" by simp_all
    then show ?thesis by (rule latlong_roundtrip)
  qed
next
  assume "(u - 1 / 2)\<^sup>2 + (v - 1 / 2)\<^sup>2 \<le> 1 / 4"
  then show "roundtrip world2skyangular skyangular2world u v = (Some u, Some v)"
    by (rule sky_roundtrip)
next
  assume d: "(u - 1 / 2)\<^sup>2 + (v - 1 / 2)\<^sup>2 \<le> 1 / 4"
  let ?r = "sqrt ((2 * u - 1)\<^sup>2 + (2 * v - 1)\<^sup>2)"
  let ?s = "sin (np_pi * ?r)"
  let ?k = "angular_shrink u v"
  have k: "?k = 2 * np_pi * ?s / (2 * np_pi * ?s + eps)" by (simp add: angular_shrink_def Let_def)
  have du: "\<bar>u - 1 / 2\<bar> \<le> 1 / 2" using d by (rule half_dist)
  have dv: "\<bar>v - 1 / 2\<bar> \<le> 1 / 2" using d half_dist [of v u] by (simp add: add.commute)
  have r1: "?r \<le> 1" using d by (simp only: disk_radius)
  have sp: "0 < ?s" if "u \<noteq> 1 / 2 \<or> v \<noteq> 1 / 2"
    using off_centre [OF that] r1 by (rule angular_sine_pos)
  have bu: "0 < ?s \<Longrightarrow> \<bar>(1 / 2 + ?k * (u - 1 / 2)) - u\<bar> \<le> eps / (4 * np_pi * ?s)"
    unfolding k by (rule angular_deviation [OF du])
  have bv: "0 < ?s \<Longrightarrow> \<bar>(1 / 2 + ?k * (v - 1 / 2)) - v\<bar> \<le> eps / (4 * np_pi * ?s)"
    unfolding k by (rule angular_deviation [OF dv])
  let ?u' = "1 / 2 + ?k * (u - 1 / 2)"
  let ?v' = "1 / 2 + ?k * (v - 1 / 2)"
  have rt: "roundtrip world2angular angular2world u v = (Some ?u', Some ?v')"
    by (rule angular_roundtrip [OF d])
  have e: "?u' - 1 / 2 = ?k * (u - 1 / 2)" "?v' - 1 / 2 = ?k * (v - 1 / 2)" by simp_all
  have rng: "0 \<le> ?k" "?k < 1" using angular_shrink_range [OF d] by simp_all
  have centre: "u = 1 / 2 \<and> v = 1 / 2 \<longrightarrow> ?u' = u \<and> ?v' = v"
  proof
    assume c: "u = 1 / 2 \<and> v = 1 / 2"
    have "?k * (u - 1 / 2) = 0" "?k * (v - 1 / 2) = 0" using c by simp_all
    then show "?u' = u \<and> ?v' = v" using c by linarith
  qed
  have off: "u \<noteq> 1 / 2 \<or> v \<noteq> 1 / 2 \<longrightarrow>
      0 < ?s \<and> \<bar>?u' - u\<bar> \<le> eps / (4 * np_pi * ?s) \<and> \<bar>?v' - v\<bar> \<le> eps / (4 * np_pi * ?s)"
    using sp bu bv by blast
  from rt e rng centre off
  show "\<exists>u' v'. roundtrip world2angular angular2world u v = (Some u', Some v') \<and>
         u' - 1 / 2 = ?k * (u - 1 / 2) \<and> v' - 1 / 2 = ?k * (v - 1 / 2) \<and>
         0 \<le> ?k \<and> ?k < 1 \<and>
         (u = 1 / 2 \<and> v = 1 / 2 \<longrightarrow> u' = u \<and> v' = v) \<and>
         (u \<noteq> 1 / 2 \<or> v \<noteq> 1 / 2 \<longrightarrow>
            0 < ?s \<and> \<bar>u' - u\<bar> \<le> eps / (4 * np_pi * ?s) \<and> \<bar>v' - v\<bar> \<le> eps / (4 * np_pi * ?s))"
    by blast
qed

text \<open>
  The amended round trip at \<open>(0, 1)\<close>, a corner of the latitude-longitude square, and at
  \<open>(3/4, 1/2)\<close>, inside the disk of both angular formats.
\<close>

theorem roundtrip_amended_witness:
  "roundtrip world2latlong latlong2world 0 1 = (Some 0, Some 1) \<and>
   roundtrip world2latlong latlong2world (3 / 4) (1 / 2) = (Some (3 / 4), Some (1 / 2)) \<and>
   roundtrip world2skyangular skyangular2world (3 / 4) (1 / 2) = (Some (3 / 4), Some (1 / 2)) \<and>
   (\<exists>u' v'. roundtrip world2angular angular2world (3 / 4) (1 / 2) = (Some u', Some v') \<and>
      \<bar>u' - 3 / 4\<bar> \<le> eps / (4 * np_pi * sin (np_pi * (1 / 2))) \<and> v' = 1 / 2)"
proof -
  have r: "sqrt ((2 * (3 / 4) - 1)\<^sup>2 + (2 * (1 / 2) - 1)\<^sup>2) = (1 / 2 :: real)"
    by (simp add: power2_eq_square real_sqrt_divide)
  have h0: "0 \<le> (0::real) \<and> (0::real) \<le> 1 \<and> 0 \<le> (1::real) \<and> (1::real) \<le> 1 \<and>
      ((1::real) = 0 \<longrightarrow> (0::real) = 1 / 2)" by simp
  have h1: "0 \<le> (3 / 4 :: real) \<and> (3 / 4 :: real) \<le> 1 \<and> 0 \<le> (1 / 2 :: real) \<and>
      (1 / 2 :: real) \<le> 1 \<and> ((1 / 2 :: real) = 0 \<longrightarrow> (3 / 4 :: real) = 1 / 2)"
    by simp
  have h2: "(3 / 4 - 1 / 2)\<^sup>2 + (1 / 2 - 1 / 2)\<^sup>2 \<le> 1 / (4::real)"
    by (simp add: power2_eq_square)
  have h3: "(3 / 4 :: real) \<noteq> 1 / 2 \<or> (1 / 2 :: real) \<noteq> 1 / 2" by simp
  note corner = roundtrip_amended [of 0 1, THEN conjunct1, THEN mp, OF h0]
  note at = roundtrip_amended [of "3 / 4" "1 / 2"]
  note ll = at [THEN conjunct1, THEN mp, OF h1]
  note sky = at [THEN conjunct2, THEN conjunct1, THEN mp, OF h2]
  from at [THEN conjunct2, THEN conjunct2, THEN mp, OF h2] h3 obtain u' v' where
    rt: "roundtrip world2angular angular2world (3 / 4) (1 / 2) = (Some u', Some v')" and
    v: "v' - 1 / 2 = angular_shrink (3 / 4) (1 / 2) * (1 / 2 - 1 / 2)" and
    b: "\<bar>u' - 3 / 4\<bar> \<le>
        eps / (4 * np_pi * sin (np_pi * sqrt ((2 * (3 / 4) - 1)\<^sup>2 + (2 * (1 / 2) - 1)\<^sup>2)))"
    by blast
  from v have "v' = 1 / 2" by simp
  with rt b [unfolded r] corner ll sky show ?thesis by blast
qed

text \<open>
  C4.  The angular and the sky-angular image-to-world transforms mark \<open>(u, v)\<close> valid
  exactly when \<open>(u - 1/2)\<^sup>2 + (v - 1/2)\<^sup>2 \<le> 1/4\<close>, the closed disk inscribed in the unit
  square.
\<close>

theorem disk_validity:
  "snd (snd (snd (angular2world u v))) = ((u - 1 / 2)\<^sup>2 + (v - 1 / 2)\<^sup>2 \<le> 1 / 4) \<and>
   snd (snd (snd (skyangular2world u v))) = ((u - 1 / 2)\<^sup>2 + (v - 1 / 2)\<^sup>2 \<le> 1 / 4)"
  by (simp add: angular2world_def skyangular2world_def Let_def)

text \<open>
  C5.  \<^verbatim>\<open>latlong2world\<close> is valid everywhere and returns
  \<open>x = sin (pi v) sin (pi (2u - 1))\<close>, \<open>y = cos (pi v)\<close>,
  \<open>z = - sin (pi v) cos (pi (2u - 1))\<close>; \<^verbatim>\<open>world2latlong\<close> returns
  \<open>u = (1 + arctan2 x (- z) / pi) / 2\<close> and \<open>v = arccos y / pi\<close>, which is
  \<^verbatim>\<open>nan\<close> when \<open>y\<close> is outside \<open>[-1, 1]\<close>.  The \<open>pi\<close> of the formulas is the code's
  \<^verbatim>\<open>np.pi\<close>, less than \<open>125 / 10 ^ 18\<close> below \<open>pi\<close>.  The formulas hold for all
  arguments, in particular on the unit square.
\<close>

theorem latlong_formulas:
  "latlong2world u v =
     (sin (np_pi * v) * sin (np_pi * (2 * u - 1)), cos (np_pi * v),
      - sin (np_pi * v) * cos (np_pi * (2 * u - 1)), True) \<and>
   world2latlong x y z =
     (Some ((1 + arctan2 x (- z) / np_pi) / 2),
      if - 1 \<le> y \<and> y \<le> 1 then Some (arccos y / np_pi) else None) \<and>
   np_pi < pi \<and> pi - np_pi \<le> 125 / 10 ^ 18"
  using np_pi_less_pi np_pi_gap_upper
  by (simp add: latlong2world_def world2latlong_def np_arccos_def Let_def mult.commute)

text \<open>
  C7.  \<^verbatim>\<open>world2angular\<close> at the direction \<open>(0, 0, -1)\<close> returns the finite image
  point \<open>(1/2, 1/2)\<close>: the denominator is \<open>eps\<close>, not zero, and the quotient is
  \<open>0 / eps\<close>.
\<close>

theorem angular_forward_axis_finite:
  "world2angular 0 0 (- 1) = (Some (1 / 2), Some (1 / 2))"
  by (simp add: world2angular_def np_arccos_def np_divide_def eps_def)

lemma on_sphere: "(s * c)\<^sup>2 + (s * d)\<^sup>2 + k\<^sup>2 = s\<^sup>2 * (c\<^sup>2 + d\<^sup>2) + (k::real)\<^sup>2"
  by (simp add: power_mult_distrib algebra_simps)

lemma on_sphere_trig: "(sin p * cos t)\<^sup>2 + (sin p * sin t)\<^sup>2 + (cos p)\<^sup>2 = (1::real)"
  unfolding on_sphere by (simp add: add.commute [of "(cos t)\<^sup>2"])

text \<open>
  C9.  The direction returned by each image-to-world transform lies on the unit sphere,
  \<open>x\<^sup>2 + y\<^sup>2 + z\<^sup>2 = 1\<close>, for every \<open>(u, v)\<close>, valid or not.
\<close>

theorem unit_sphere:
  "(case latlong2world u v of (x, y, z, valid) \<Rightarrow> x\<^sup>2 + y\<^sup>2 + z\<^sup>2) = 1 \<and>
   (case angular2world u v of (x, y, z, valid) \<Rightarrow> x\<^sup>2 + y\<^sup>2 + z\<^sup>2) = 1 \<and>
   (case skyangular2world u v of (x, y, z, valid) \<Rightarrow> x\<^sup>2 + y\<^sup>2 + z\<^sup>2) = 1"
proof (intro conjI)
  let ?p = "np_pi * v" and ?t = "np_pi * (u * 2 - 1)"
  have "(sin ?p * sin ?t)\<^sup>2 + (cos ?p)\<^sup>2 + (- sin ?p * cos ?t)\<^sup>2 =
        (sin ?p * cos ?t)\<^sup>2 + (sin ?p * sin ?t)\<^sup>2 + (cos ?p)\<^sup>2" by simp
  then show "(case latlong2world u v of (x, y, z, valid) \<Rightarrow> x\<^sup>2 + y\<^sup>2 + z\<^sup>2) = 1"
    unfolding latlong2world_def Let_def by (simp only: prod.case on_sphere_trig)
next
  show "(case angular2world u v of (x, y, z, valid) \<Rightarrow> x\<^sup>2 + y\<^sup>2 + z\<^sup>2) = 1"
    unfolding angular2world_def Let_def by (simp only: prod.case power2_minus on_sphere_trig)
next
  let ?p = "np_pi / 2 * sqrt ((2 * u - 1)\<^sup>2 + (2 * v - 1)\<^sup>2)" and ?t = "arctan2 (- 2 * v + 1) (2 * u - 1)"
  have "(sin ?p * cos ?t)\<^sup>2 + (cos ?p)\<^sup>2 + (sin ?p * sin ?t)\<^sup>2 =
        (sin ?p * cos ?t)\<^sup>2 + (sin ?p * sin ?t)\<^sup>2 + (cos ?p)\<^sup>2" by simp
  then show "(case skyangular2world u v of (x, y, z, valid) \<Rightarrow> x\<^sup>2 + y\<^sup>2 + z\<^sup>2) = 1"
    unfolding skyangular2world_def Let_def by (simp only: prod.case on_sphere_trig)
qed

section \<open>Properties of the class\<close>

subsection \<open>The coordinate grid\<close>

lemma length_slice_1_2: "length (slice_1_2 xs) = length xs div 2"
  by (induction xs rule: slice_1_2.induct) auto

lemma nth_slice_1_2: "k < length xs div 2 \<Longrightarrow> slice_1_2 xs ! k = xs ! (2 * k + 1)"
proof (induction xs arbitrary: k rule: slice_1_2.induct)
  case (1 x y xs)
  then show ?case by (cases k) auto
qed auto

lemma length_linspace: "length (linspace a b n) = n"
  by (simp add: linspace_def)

lemma nth_linspace: "k < n \<Longrightarrow> n \<noteq> 1 \<Longrightarrow> linspace 0 1 n ! k = real k / real (n - 1)"
  by (simp add: linspace_def)

lemma length_pixel_centres: "length (pixel_centres n) = n"
  by (simp add: pixel_centres_def length_slice_1_2 length_linspace)

lemma nth_pixel_centres:
  assumes "k < n"
  shows "pixel_centres n ! k = (2 * real k + 1) / (2 * real n)"
proof -
  have "k < length (linspace 0 1 (n * 2 + 1)) div 2" using assms by (simp add: length_linspace)
  then have "pixel_centres n ! k = linspace 0 1 (n * 2 + 1) ! (2 * k + 1)"
    unfolding pixel_centres_def by (rule nth_slice_1_2)
  also have "\<dots> = real (2 * k + 1) / real (n * 2 + 1 - 1)"
    using assms by (intro nth_linspace) auto
  also have "\<dots> = (2 * real k + 1) / (2 * real n)" by (simp add: mult.commute)
  finally show ?thesis .
qed

lemma imageCoordinates_eq:
  "shape3 (data self) = (h, w, n) \<Longrightarrow>
   imageCoordinates self = meshgrid (pixel_centres w) (pixel_centres h)"
  by (simp add: imageCoordinates_def pixel_centres_def)

text \<open>
  C8.  For a map of \<open>h\<close> rows and \<open>w\<close> columns, \<^verbatim>\<open>imageCoordinates\<close> returns two
  arrays \<open>U\<close> and \<open>V\<close> of shape \<open>(h, w)\<close> with \<open>U[i, j] = (2j + 1) / (2w)\<close> and
  \<open>V[i, j] = (2i + 1) / (2h)\<close>: \<open>U\<close> is the same in every row and increases with the
  column index, \<open>V\<close> increases with the row index.
\<close>

theorem imageCoordinates_centres:
  assumes "shape3 (data self) = (h, w, n)" and "imageCoordinates self = (U, V)"
  shows "shape2 U = (h, w) \<and> shape2 V = (h, w) \<and>
         (\<forall>i<h. \<forall>j<w. elem2 U i j = (2 * real j + 1) / (2 * real w) \<and>
                        elem2 V i j = (2 * real i + 1) / (2 * real h)) \<and>
         (\<forall>i<h. \<forall>i'<h. \<forall>j<w. elem2 U i j = elem2 U i' j) \<and>
         (\<forall>i<h. \<forall>j<w. \<forall>j'<w. j < j' \<longrightarrow> elem2 U i j < elem2 U i j') \<and>
         (\<forall>i<h. \<forall>i'<h. \<forall>j<w. i < i' \<longrightarrow> elem2 V i j < elem2 V i' j)"
proof -
  have UV: "U = \<lparr>shape2 = (h, w), elem2 = (\<lambda>i j. pixel_centres w ! j)\<rparr>"
           "V = \<lparr>shape2 = (h, w), elem2 = (\<lambda>i j. pixel_centres h ! i)\<rparr>"
    using assms imageCoordinates_eq [OF assms(1)]
    by (simp_all add: meshgrid_def length_pixel_centres)
  have mono: "(2 * real a + 1) / (2 * real m) < (2 * real b + 1) / (2 * real m)"
    if "a < b" "b < m" for a b m :: nat
    using that by (simp add: divide_strict_right_mono)
  show ?thesis
    unfolding UV by (simp add: nth_pixel_centres mono)
qed

text \<open>The grid of a map of two rows and two columns: the centres are \<open>1/4\<close> and \<open>3/4\<close>.\<close>

theorem imageCoordinates_centres_witness:
  "shape2 (fst (imageCoordinates (zeros_map 2 2 1))) = (2, 2) \<and>
   elem2 (fst (imageCoordinates (zeros_map 2 2 1))) 1 0 = 1 / 4 \<and>
   elem2 (fst (imageCoordinates (zeros_map 2 2 1))) 1 1 = 3 / 4 \<and>
   elem2 (snd (imageCoordinates (zeros_map 2 2 1))) 0 1 = 1 / 4 \<and>
   elem2 (snd (imageCoordinates (zeros_map 2 2 1))) 1 1 = 3 / 4"
proof -
  have s: "shape3 (data (zeros_map 2 2 1)) = (2, 2, 1)" by (simp add: zeros_map_def np_zeros_def)
  have e: "imageCoordinates (zeros_map 2 2 1) = (fst (imageCoordinates (zeros_map 2 2 1)), snd (imageCoordinates (zeros_map 2 2 1)))"
    by simp
  from imageCoordinates_centres [OF s e] show ?thesis by simp
qed

subsection \<open>The two loops over the channels\<close>

lemma length_flatten: "length (flatten a) = fst (shape2 a) * snd (shape2 a)"
  by (simp add: flatten_def length_concat comp_def sum_list_triv)

lemma shape3_assign_masked: "shape3 (assign_masked d c valid x) = shape3 d"
  by (simp add: assign_masked_def split: prod.splits)

lemma elem3_assign_masked:
  "shape3 d = (h, w, n) \<Longrightarrow>
   elem3 (assign_masked d c valid x) i j k =
     (if k = c \<and> i < h \<and> j < w \<and> \<not> elem2 valid i j then x else elem3 d i j k)"
  by (simp add: assign_masked_def)

lemma fill_channels_frame:
  "fill_channels cs valid self = (r, self') \<Longrightarrow>
   shape3 (data self') = shape3 (data self) \<and> format_tag self' = format_tag self \<and>
   backgroundColor self' = backgroundColor self \<and> r \<noteq> Inl AssertionError \<and> r \<noteq> Inl ValueError \<and> r \<noteq> Inl TypeError"
proof (induction cs arbitrary: self)
  case Nil
  then show ?case by auto
next
  case (Cons c cs)
  show ?case
  proof (cases "c < length (backgroundColor self)")
    case True
    let ?s = "self\<lparr>data := assign_masked (data self) c valid (backgroundColor self ! c)\<rparr>"
    from Cons.prems True have "fill_channels cs valid ?s = (r, self')" by simp
    from Cons.IH [OF this] show ?thesis by (simp add: shape3_assign_masked)
  next
    case False
    with Cons.prems show ?thesis by auto
  qed
qed

lemma fill_channels_ok:
  "\<forall>c\<in>set cs. c < length (backgroundColor self) \<Longrightarrow>
   \<exists>self'. fill_channels cs valid self = (Inr (), self')"
  by (induction cs arbitrary: self) auto

lemma fill_channels_effect:
  "fill_channels cs valid self = (Inr (), self') \<Longrightarrow> shape3 (data self) = (h, w, n) \<Longrightarrow>
   elem3 (data self') i j k =
     (if k \<in> set cs \<and> i < h \<and> j < w \<and> \<not> elem2 valid i j then backgroundColor self ! k
      else elem3 (data self) i j k)"
proof (induction cs arbitrary: self)
  case Nil
  then show ?case by auto
next
  case (Cons c cs)
  show ?case
  proof (cases "c < length (backgroundColor self)")
    case True
    let ?s = "self\<lparr>data := assign_masked (data self) c valid (backgroundColor self ! c)\<rparr>"
    from Cons.prems True have run: "fill_channels cs valid ?s = (Inr (), self')" by simp
    have shp: "shape3 (data ?s) = (h, w, n)" using Cons.prems(2) by (simp add: shape3_assign_masked)
    from Cons.IH [OF run shp] show ?thesis
      by (simp add: elem3_assign_masked [OF Cons.prems(2)])
  next
    case False
    with Cons.prems show ?thesis by auto
  qed
qed

lemma fill_channels_needs:
  "fill_channels cs valid self = (Inr (), self') \<Longrightarrow> \<forall>c\<in>set cs. c < length (backgroundColor self)"
proof (induction cs arbitrary: self)
  case Nil
  then show ?case by simp
next
  case (Cons c cs)
  show ?case
  proof (cases "c < length (backgroundColor self)")
    case True
    let ?s = "self\<lparr>data := assign_masked (data self) c valid (backgroundColor self ! c)\<rparr>"
    from Cons.prems True have "fill_channels cs valid ?s = (Inr (), self')" by simp
    from Cons.IH [OF this] True show ?thesis by simp
  next
    case False
    with Cons.prems show ?thesis by auto
  qed
qed

lemma shape3_assign_channel: "shape3 (assign_channel d c m) = shape3 d"
  by (simp add: assign_channel_def)

lemma interp_channels_error:
  "interp_channels interp coords src target cs d = Inl e \<Longrightarrow> e = ValueError"
proof (induction cs arbitrary: d)
  case Nil
  then show ?case by simp
next
  case (Cons c cs)
  then show ?case
    by (auto simp: RegularGridInterpolator_def reshape_def Let_def shape3_assign_channel
        split: sum.splits prod.splits if_splits)
qed

lemma interp_channels_shape:
  "interp_channels interp coords src target cs d = Inr d' \<Longrightarrow> shape3 d' = shape3 d"
proof (induction cs arbitrary: d)
  case Nil
  then show ?case by simp
next
  case (Cons c cs)
  then show ?case
    by (fastforce simp: Let_def shape3_assign_channel split: sum.splits)
qed

lemma interp_channels_needs:
  "interp_channels interp (cols, rows) src target cs d = Inr d' \<Longrightarrow> cs \<noteq> [] \<Longrightarrow>
   shape3 src = (h, w, n) \<Longrightarrow>
   (h, w) = (length cols, length rows) \<and>
   length target = fst (shape3 d) * fst (snd (shape3 d))"
  by (cases cs)
    (auto simp: RegularGridInterpolator_def reshape_def channel_def Let_def
      split: sum.splits if_splits)

lemma interp_channels_ok:
  "shape3 src = (length cols, length rows, n) \<Longrightarrow>
   length target = fst (shape3 d) * fst (snd (shape3 d)) \<Longrightarrow>
   \<exists>d'. interp_channels interp (cols, rows) src target cs d = Inr d'"
proof (induction cs arbitrary: d)
  case Nil
  then show ?case by simp
next
  case (Cons c cs)
  then show ?case
    by (simp add: RegularGridInterpolator_def reshape_def channel_def Let_def
        shape3_assign_channel)
qed

lemma interp_channels_effect:
  "interp_channels interp (cols, rows) src target cs d = Inr d' \<Longrightarrow>
   shape3 d = (m, l, n) \<Longrightarrow> i < m \<Longrightarrow> j < l \<Longrightarrow>
   elem3 d' i j k =
     (if k \<in> set cs then interp cols rows (\<lambda>a b. elem3 src a b k) (target ! (i * l + j))
      else elem3 d i j k)"
proof (induction cs arbitrary: d)
  case Nil
  then show ?case by simp
next
  case (Cons c cs)
  from Cons.prems(1) obtain mesh where
    mesh: "RegularGridInterpolator interp (cols, rows) (channel src c) = Inr mesh"
    by (auto split: sum.splits)
  then have mesh_eq: "mesh = interp cols rows (\<lambda>a b. elem3 src a b c)"
    by (auto simp: RegularGridInterpolator_def channel_def split: if_splits prod.splits)
  from Cons.prems(1,2) mesh obtain g where
    g: "reshape (map mesh target) m l = Inr g"
    and run: "interp_channels interp (cols, rows) src target cs (assign_channel d c g) = Inr d'"
    by (auto simp: Let_def split: sum.splits)
  from g have len: "length target = m * l"
    and g_eq: "g = \<lparr>shape2 = (m, l), elem2 = (\<lambda>i j. map mesh target ! (i * l + j))\<rparr>"
    by (auto simp: reshape_def split: if_splits)
  have "i * l + j < m * l"
  proof -
    have "i * l + j < i * l + l" using Cons.prems(4) by simp
    also have "\<dots> = (i + 1) * l" by simp
    also have "\<dots> \<le> m * l" using Cons.prems(3) by (intro mult_le_mono1) simp
    finally show ?thesis .
  qed
  then have at: "elem2 g i j = mesh (target ! (i * l + j))"
    using len by (simp add: g_eq)
  have shp: "shape3 (assign_channel d c g) = (m, l, n)"
    using Cons.prems(2) by (simp add: shape3_assign_channel)
  from Cons.IH [OF run shp Cons.prems(3,4)] show ?case
    by (auto simp: assign_channel_def at mesh_eq)
qed

subsection \<open>Background fill and resampling\<close>

lemma interpolate_unfold:
  assumes "shape3 (data self) = (h, w, n)"
  shows "interpolate self interp u v valid =
     (if h = 0 \<or> w = 0 then (Inl IndexError, self)
      else if length (flatten u) \<noteq> length (flatten v) then (Inl ValueError, self)
      else case interp_channels interp (pixel_centres w, pixel_centres h) (data self)
                  (zip (flatten u) (flatten v)) [0..<n] (np_zeros (w, h, n)) of
             Inl e \<Rightarrow> (Inl e, self)
           | Inr d \<Rightarrow> setBackgroundColor (self\<lparr>data := d\<rparr>) (backgroundColor self) valid)"
proof -
  have r: "map (\<lambda>j. pixel_centres w ! j) [0..<w] = pixel_centres w"
    using map_nth [of "pixel_centres w"] by (simp add: length_pixel_centres)
  have c: "map (\<lambda>i. pixel_centres h ! i) [0..<h] = pixel_centres h"
    using map_nth [of "pixel_centres h"] by (simp add: length_pixel_centres)
  show ?thesis
    unfolding interpolate_def imageCoordinates_eq [OF assms] meshgrid_def
    by (simp add: index_row_def index_col_def vstack_T_def length_pixel_centres r c assms)
qed

lemma setBackgroundColor_assert:
  "fst (setBackgroundColor self color valid) = Inl AssertionError \<Longrightarrow>
   snd (setBackgroundColor self color valid) = self"
proof (cases valid)
  case (FloatArray a)
  then show ?thesis by (simp add: setBackgroundColor_def)
next
  case (BoolArray m)
  obtain h w n where shp: "shape3 (data self) = (h, w, n)" by (cases "shape3 (data self)") auto
  assume a: "fst (setBackgroundColor self color valid) = Inl AssertionError"
  show ?thesis
  proof (cases "shape2 m = (h, w)")
    case True
    obtain r s' where run: "fill_channels [0..<n] m (self\<lparr>backgroundColor := color\<rparr>) = (r, s')"
      by (cases "fill_channels [0..<n] m (self\<lparr>backgroundColor := color\<rparr>)") auto
    from fill_channels_frame [OF run] have "r \<noteq> Inl AssertionError" by simp
    with a BoolArray shp True run show ?thesis by (simp add: setBackgroundColor_def)
  next
    case False
    with BoolArray shp show ?thesis by (simp add: setBackgroundColor_def)
  qed
qed

lemma setBackgroundColor_no_ValueError:
  "fst (setBackgroundColor self color valid) \<noteq> Inl ValueError"
proof (cases valid)
  case (FloatArray a)
  then show ?thesis by (simp add: setBackgroundColor_def)
next
  case (BoolArray m)
  obtain h w n where shp: "shape3 (data self) = (h, w, n)" by (cases "shape3 (data self)") auto
  obtain r s' where run: "fill_channels [0..<n] m (self\<lparr>backgroundColor := color\<rparr>) = (r, s')"
    by (cases "fill_channels [0..<n] m (self\<lparr>backgroundColor := color\<rparr>)") auto
  from fill_channels_frame [OF run] have "r \<noteq> Inl ValueError" by simp
  with BoolArray shp run show ?thesis by (simp add: setBackgroundColor_def)
qed

lemma setBackgroundColor_fills:
  assumes shp: "shape3 (data self) = (h, w, n)" and m: "shape2 m = (h, w)"
    and col: "n \<le> length color"
  shows "\<exists>self'. setBackgroundColor self color (BoolArray m) = (Inr (), self') \<and>
           shape3 (data self') = (h, w, n) \<and> format_tag self' = format_tag self \<and>
           backgroundColor self' = color \<and>
           (\<forall>i j k. elem3 (data self') i j k =
              (if k < n \<and> i < h \<and> j < w \<and> \<not> elem2 m i j then color ! k
               else elem3 (data self) i j k))"
proof -
  let ?s = "self\<lparr>backgroundColor := color\<rparr>"
  have "\<forall>c\<in>set [0..<n]. c < length (backgroundColor ?s)" using col by simp
  from fill_channels_ok [OF this] obtain self' where
    run: "fill_channels [0..<n] m ?s = (Inr (), self')" by blast
  have shp': "shape3 (data ?s) = (h, w, n)" using shp by simp
  have eff: "elem3 (data self') i j k =
      (if k < n \<and> i < h \<and> j < w \<and> \<not> elem2 m i j then color ! k else elem3 (data self) i j k)"
    for i j k
    using fill_channels_effect [OF run shp', of i j k] by simp
  have "setBackgroundColor self color (BoolArray m) = (Inr (), self')"
    using shp m run by (simp add: setBackgroundColor_def)
  moreover have "shape3 (data self') = (h, w, n)" "format_tag self' = format_tag self"
    "backgroundColor self' = color"
    using fill_channels_frame [OF run] shp by simp_all
  ultimately show ?thesis using eff by blast
qed

lemma setBackgroundColor_Inr:
  assumes run: "setBackgroundColor self color valid = (Inr (), self')"
    and shp: "shape3 (data self) = (h, w, n)"
  shows "\<exists>m. valid = BoolArray m \<and> shape2 m = (h, w) \<and> n \<le> length color"
proof (cases valid)
  case (FloatArray a)
  with run show ?thesis by (simp add: setBackgroundColor_def)
next
  case (BoolArray m)
  with run shp have m: "shape2 m = (h, w)"
    and f: "fill_channels [0..<n] m (self\<lparr>backgroundColor := color\<rparr>) = (Inr (), self')"
    by (auto simp: setBackgroundColor_def split: if_splits)
  from fill_channels_needs [OF f] have "\<forall>c<n. c < length color" by simp
  then have "n \<le> length color" by (metis not_le_imp_less order_refl not_less)
  with BoolArray m show ?thesis by simp
qed

lemma shape3_np_zeros: "shape3 (np_zeros shp) = shp"
  by (simp add: np_zeros_def)

lemma interpolate_Inr:
  assumes run: "interpolate self interp u v valid = (Inr (), self')"
    and shp: "shape3 (data self) = (h, w, n)"
  shows "0 < h \<and> 0 < w \<and> shape3 (data self') = (w, h, n) \<and>
         format_tag self' = format_tag self \<and> backgroundColor self' = backgroundColor self \<and>
         (0 < n \<longrightarrow> h = w \<and> fst (shape2 u) * snd (shape2 u) = w * h \<and>
                    fst (shape2 v) * snd (shape2 v) = w * h) \<and>
         (\<exists>m. valid = BoolArray m \<and> shape2 m = (w, h) \<and>
            (\<forall>i<w. \<forall>j<h. \<forall>k<n. elem3 (data self') i j k =
               (if elem2 m i j
                then interp (pixel_centres w) (pixel_centres h) (\<lambda>a b. elem3 (data self) a b k)
                       (zip (flatten u) (flatten v) ! (i * h + j))
                else backgroundColor self ! k)))"
proof -
  let ?target = "zip (flatten u) (flatten v)"
  let ?run = "interp_channels interp (pixel_centres w, pixel_centres h) (data self) ?target
                [0..<n] (np_zeros (w, h, n))"
  from run have pos: "h \<noteq> 0" "w \<noteq> 0" and len: "length (flatten u) = length (flatten v)"
    unfolding interpolate_unfold [OF shp] by (auto split: if_splits)
  from run pos len obtain d where d: "?run = Inr d"
    and bg: "setBackgroundColor (self\<lparr>data := d\<rparr>) (backgroundColor self) valid = (Inr (), self')"
    unfolding interpolate_unfold [OF shp] by (auto split: sum.splits)
  have shd: "shape3 (data (self\<lparr>data := d\<rparr>)) = (w, h, n)"
    using interp_channels_shape [OF d] by (simp add: shape3_np_zeros)
  from setBackgroundColor_Inr [OF bg shd] obtain m where
    m: "valid = BoolArray m" "shape2 m = (w, h)" and col: "n \<le> length (backgroundColor self)"
    by blast
  from setBackgroundColor_fills [OF shd m(2) col] bg m(1) have
    fr: "shape3 (data self') = (w, h, n)" "format_tag self' = format_tag self"
        "backgroundColor self' = backgroundColor self"
    and eff: "\<And>i j k. elem3 (data self') i j k =
              (if k < n \<and> i < w \<and> j < h \<and> \<not> elem2 m i j then backgroundColor self ! k
               else elem3 d i j k)"
    by auto
  have sq: "h = w \<and> fst (shape2 u) * snd (shape2 u) = w * h \<and>
            fst (shape2 v) * snd (shape2 v) = w * h" if "0 < n"
  proof -
    from that have ne: "[0..<n] \<noteq> []" by simp
    from interp_channels_needs [OF d ne shp] have
      a: "(h, w) = (length (pixel_centres w), length (pixel_centres h))" and
      b: "length ?target = fst (shape3 (np_zeros (w, h, n))) * fst (snd (shape3 (np_zeros (w, h, n))))"
      by blast+
    from arg_cong [OF a, of fst] have "h = w" by (simp only: fst_conv length_pixel_centres)
    moreover from b have "min (length (flatten u)) (length (flatten v)) = w * h"
      by (simp only: length_zip shape3_np_zeros fst_conv snd_conv)
    with len have "length (flatten u) = w * h" "length (flatten v) = w * h" by simp_all
    then have "fst (shape2 u) * snd (shape2 u) = w * h" "fst (shape2 v) * snd (shape2 v) = w * h"
      by (simp_all only: length_flatten)
    ultimately show ?thesis by blast
  qed
  have px: "elem3 (data self') i j k =
      (if elem2 m i j
       then interp (pixel_centres w) (pixel_centres h) (\<lambda>a b. elem3 (data self) a b k)
              (?target ! (i * h + j))
       else backgroundColor self ! k)" if "i < w" "j < h" "k < n" for i j k
    using interp_channels_effect [OF d shape3_np_zeros that(1,2), of k] that
    by (simp add: eff)
  show ?thesis using pos fr sq m px by auto
qed

lemma interpolate_ok:
  assumes shp: "shape3 (data self) = (h, h, n)" and h: "0 < h"
    and u: "fst (shape2 u) * snd (shape2 u) = h * h"
    and v: "fst (shape2 v) * snd (shape2 v) = h * h"
    and m: "shape2 m = (h, h)" and col: "n \<le> length (backgroundColor self)"
  shows "\<exists>self'. interpolate self interp u v (BoolArray m) = (Inr (), self')"
proof -
  let ?target = "zip (flatten u) (flatten v)"
  have len: "length (flatten u) = length (flatten v)" using u v by (simp add: length_flatten)
  have "shape3 (data self) = (length (pixel_centres h), length (pixel_centres h), n)"
    using shp by (simp add: length_pixel_centres)
  moreover have "length ?target =
      fst (shape3 (np_zeros (h, h, n))) * fst (snd (shape3 (np_zeros (h, h, n))))"
    using u v by (simp add: length_flatten shape3_np_zeros)
  ultimately obtain d where d: "interp_channels interp (pixel_centres h, pixel_centres h)
      (data self) ?target [0..<n] (np_zeros (h, h, n)) = Inr d"
    using interp_channels_ok by blast
  have shd: "shape3 (data (self\<lparr>data := d\<rparr>)) = (h, h, n)"
    using interp_channels_shape [OF d] by (simp add: shape3_np_zeros)
  from setBackgroundColor_fills [OF shd m col] obtain self' where
    "setBackgroundColor (self\<lparr>data := d\<rparr>) (backgroundColor self) (BoolArray m) = (Inr (), self')"
    by blast
  then show ?thesis
    unfolding interpolate_unfold [OF shp] using h len d by simp
qed

lemma interpolate_ValueError:
  assumes "fst (interpolate self interp u v valid) = Inl ValueError"
  shows "snd (interpolate self interp u v valid) = self"
proof -
  obtain h w n where shp: "shape3 (data self) = (h, w, n)" by (cases "shape3 (data self)") auto
  show ?thesis
    using assms setBackgroundColor_no_ValueError
    unfolding interpolate_unfold [OF shp]
    by (auto split: if_splits sum.splits)
qed

lemma setBackgroundColor_no_TypeError:
  "fst (setBackgroundColor self color valid) \<noteq> Inl TypeError"
proof (cases valid)
  case (FloatArray a)
  then show ?thesis by (simp add: setBackgroundColor_def)
next
  case (BoolArray m)
  obtain h w n where shp: "shape3 (data self) = (h, w, n)" by (cases "shape3 (data self)") auto
  obtain r s' where run: "fill_channels [0..<n] m (self\<lparr>backgroundColor := color\<rparr>) = (r, s')"
    by (cases "fill_channels [0..<n] m (self\<lparr>backgroundColor := color\<rparr>)") auto
  from fill_channels_frame [OF run] have "r \<noteq> Inl TypeError" by simp
  with BoolArray shp run show ?thesis by (simp add: setBackgroundColor_def)
qed

lemma interpolate_no_TypeError:
  "fst (interpolate self interp u v valid) \<noteq> Inl TypeError"
proof -
  obtain h w n where shp: "shape3 (data self) = (h, w, n)" by (cases "shape3 (data self)") auto
  show ?thesis
    using setBackgroundColor_no_TypeError
    unfolding interpolate_unfold [OF shp]
    by (auto split: if_splits sum.splits dest: interp_channels_error)
qed

subsection \<open>Format conversion\<close>

lemma shape2_on_grid2:
  "on_grid2 func u v = (x, y, z, valid) \<Longrightarrow>
   shape2 x = shape2 u \<and> shape2 y = shape2 u \<and> shape2 z = shape2 u \<and> shape2 valid = shape2 u"
  by (auto simp: on_grid2_def Let_def)

lemma shape2_on_grid3:
  "on_grid3 func x y z = (u, v) \<Longrightarrow> shape2 u = shape2 x \<and> shape2 v = shape2 x"
  by (auto simp: on_grid3_def Let_def)

lemma shape2_imageCoordinates:
  "shape3 (data self) = (h, w, n) \<Longrightarrow> imageCoordinates self = (U, V) \<Longrightarrow>
   shape2 U = (h, w) \<and> shape2 V = (h, w)"
  by (auto simp: imageCoordinates_eq meshgrid_def length_pixel_centres)

lemma image2world_supported:
  "format_tag self \<in> set SUPPORTED_FORMATS \<Longrightarrow>
   \<exists>func. image2world self u v = Inr (on_grid2 func u v)"
  by (auto simp: image2world_def SUPPORTED_FORMATS_def)

lemma world2image_supported:
  "format_tag self \<in> set SUPPORTED_FORMATS \<Longrightarrow>
   \<exists>func. world2image self x y z = Inr (on_grid3 func x y z)"
  by (auto simp: world2image_def SUPPORTED_FORMATS_def)

lemma lower_LatLong: "lower ''LatLong'' = ''latlong''"
  by code_simp

lemma image2world_LatLong: "format_tag self = ''LatLong'' \<Longrightarrow> image2world self u v = Inl TypeError"
  by (simp add: image2world_def)

lemma world2image_LatLong: "format_tag self = ''LatLong'' \<Longrightarrow> world2image self x y z = Inl TypeError"
  by (simp add: world2image_def)

lemma convertTo_unsupported:
  "lower targetFormat \<notin> set SUPPORTED_FORMATS \<Longrightarrow>
   convertTo self interp targetFormat = (Inl AssertionError, self)"
  by (simp add: convertTo_def)

lemma convertTo_supported:
  assumes tf: "lower targetFormat \<in> set SUPPORTED_FORMATS"
    and shp: "shape3 (data self) = (h, w, n)"
  shows "(format_tag self \<notin> set SUPPORTED_FORMATS \<longrightarrow>
            convertTo self interp targetFormat = (Inl TypeError, self)) \<and>
         (format_tag self \<in> set SUPPORTED_FORMATS \<longrightarrow>
            (\<exists>u v valid. shape2 u = (h, w) \<and> shape2 v = (h, w) \<and> shape2 valid = (h, w) \<and>
               convertTo self interp targetFormat =
                 interpolate (self\<lparr>format_tag := targetFormat\<rparr>) interp u v (BoolArray valid)))"
proof -
  let ?e = "\<lparr>data = np_zeros (h, w, n), format_tag = lower targetFormat,
             backgroundColor = [Some 0, Some 0, Some 0]\<rparr>"
  have ini: "init (np_zeros (shape3 (data self))) targetFormat = Inr ?e"
    using tf shp by (simp add: init_def)
  have she: "shape3 (data ?e) = (h, w, n)" by (simp add: shape3_np_zeros)
  obtain U V where UV: "imageCoordinates ?e = (U, V)" by (cases "imageCoordinates ?e") auto
  from shape2_imageCoordinates [OF she UV] have sU: "shape2 U = (h, w)" by simp
  have "format_tag ?e \<in> set SUPPORTED_FORMATS" using tf by simp
  from image2world_supported [OF this, of U V] obtain func where
    i2w: "image2world ?e U V = Inr (on_grid2 func U V)" by blast
  obtain dx dy dz valid where g: "on_grid2 func U V = (dx, dy, dz, valid)"
    by (cases "on_grid2 func U V") auto
  from shape2_on_grid2 [OF g] sU have sx: "shape2 dx = (h, w)" "shape2 valid = (h, w)" by simp_all
  have wc: "worldCoordinates ?e = Inr (dx, dy, dz, valid)"
    by (simp add: worldCoordinates_def UV i2w g)
  show ?thesis
  proof (intro conjI impI)
    assume "format_tag self \<notin> set SUPPORTED_FORMATS"
    then have "world2image self dx dy dz = Inl TypeError"
      by (auto simp: world2image_def SUPPORTED_FORMATS_def split: option.splits if_splits)
    then show "convertTo self interp targetFormat = (Inl TypeError, self)"
      using tf by (simp add: convertTo_def ini wc)
  next
    assume "format_tag self \<in> set SUPPORTED_FORMATS"
    from world2image_supported [OF this, of dx dy dz] obtain f where
      w2i: "world2image self dx dy dz = Inr (on_grid3 f dx dy dz)" by blast
    obtain u v where uv: "on_grid3 f dx dy dz = (u, v)" by (cases "on_grid3 f dx dy dz") auto
    from shape2_on_grid3 [OF uv] sx have "shape2 u = (h, w)" "shape2 v = (h, w)" by simp_all
    moreover have "convertTo self interp targetFormat =
        interpolate (self\<lparr>format_tag := targetFormat\<rparr>) interp u v (BoolArray valid)"
      using tf by (simp add: convertTo_def ini wc w2i uv)
    ultimately show "\<exists>u v valid. shape2 u = (h, w) \<and> shape2 v = (h, w) \<and> shape2 valid = (h, w) \<and>
        convertTo self interp targetFormat =
          interpolate (self\<lparr>format_tag := targetFormat\<rparr>) interp u v (BoolArray valid)"
      using sx by blast
  qed
qed

lemma convertTo_ok:
  assumes tf: "lower targetFormat \<in> set SUPPORTED_FORMATS"
    and fmt: "format_tag self \<in> set SUPPORTED_FORMATS"
    and shp: "shape3 (data self) = (h, h, n)" and h: "0 < h"
    and col: "n \<le> length (backgroundColor self)"
  shows "\<exists>self'. convertTo self interp targetFormat = (Inr (), self') \<and>
           format_tag self' = targetFormat \<and> shape3 (data self') = (h, h, n)"
proof -
  let ?s = "self\<lparr>format_tag := targetFormat\<rparr>"
  from convertTo_supported [OF tf shp, of interp] fmt obtain u v valid where
    s: "shape2 u = (h, h)" "shape2 v = (h, h)" "shape2 valid = (h, h)" and
    c: "convertTo self interp targetFormat = interpolate ?s interp u v (BoolArray valid)"
    by blast
  have shp': "shape3 (data ?s) = (h, h, n)" using shp by simp
  have col': "n \<le> length (backgroundColor ?s)" using col by simp
  have "fst (shape2 u) * snd (shape2 u) = h * h" "fst (shape2 v) * snd (shape2 v) = h * h"
    using s by simp_all
  from interpolate_ok [OF shp' h this s(3) col', of interp] obtain self' where
    run: "interpolate ?s interp u v (BoolArray valid) = (Inr (), self')" by blast
  from interpolate_Inr [OF run shp'] have "format_tag self' = targetFormat"
    "shape3 (data self') = (h, h, n)" by simp_all
  with c run show ?thesis by simp
qed

lemma convertTo_TypeError:
  assumes "fst (convertTo self interp targetFormat) = Inl TypeError"
  shows "snd (convertTo self interp targetFormat) = self"
proof (cases "lower targetFormat \<in> set SUPPORTED_FORMATS")
  case False
  then show ?thesis by (simp add: convertTo_unsupported)
next
  case True
  obtain h w n where shp: "shape3 (data self) = (h, w, n)" by (cases "shape3 (data self)") auto
  show ?thesis
  proof (cases "format_tag self \<in> set SUPPORTED_FORMATS")
    case False
    with convertTo_supported [OF True shp, of interp] show ?thesis by simp
  next
    case fmt: True
    with convertTo_supported [OF True shp, of interp] obtain u v valid where
      "convertTo self interp targetFormat =
         interpolate (self\<lparr>format_tag := targetFormat\<rparr>) interp u v (BoolArray valid)"
      by blast
    with assms interpolate_no_TypeError show ?thesis by metis
  qed
qed

subsection \<open>Claims about the class\<close>

lemma shape3_zeros_map: "shape3 (data (zeros_map h w n)) = (h, w, n)"
  by (simp add: zeros_map_def np_zeros_def)

lemma shape2_full: "shape2 (full h w x) = (h, w)"
  by (simp add: full_def)

text \<open>
  C2, as stated, fails.  A map of shape \<open>(2, 2, 1)\<close> resampled at a query grid of shape
  \<open>(1, 4)\<close> completes, and the new buffer has shape \<open>(2, 2, 1)\<close>, not the \<open>(1, 4)\<close> of
  the query grid.
\<close>

theorem interpolate_shape_not_query:
  "fst (interpolate (zeros_map 2 2 1) (const_interp None) (full 1 4 (Some (1 / 2)))
          (full 1 4 (Some (1 / 2))) (BoolArray (full 2 2 True))) = Inr () \<and>
   shape3 (data (snd (interpolate (zeros_map 2 2 1) (const_interp None) (full 1 4 (Some (1 / 2)))
          (full 1 4 (Some (1 / 2))) (BoolArray (full 2 2 True))))) = (2, 2, 1) \<and>
   shape2 (full 1 4 (Some (1 / 2)) :: real option ndarray2) = (1, 4)"
proof -
  have shp: "shape3 (data (zeros_map 2 2 1)) = (2, 2, 1)" by (rule shape3_zeros_map)
  have q: "fst (shape2 (full 1 4 (Some (1 / 2)) :: real option ndarray2)) *
           snd (shape2 (full 1 4 (Some (1 / 2)) :: real option ndarray2)) = 2 * 2"
    by (simp add: shape2_full)
  have col: "1 \<le> length (backgroundColor (zeros_map 2 2 1))" by (simp add: zeros_map_def)
  from interpolate_ok [OF shp _ q q shape2_full col] obtain self' where
    run: "interpolate (zeros_map 2 2 1) (const_interp None) (full 1 4 (Some (1 / 2)))
            (full 1 4 (Some (1 / 2))) (BoolArray (full 2 2 True)) = (Inr (), self')"
    by auto
  from interpolate_Inr [OF run shp] have "shape3 (data self') = (2, 2, 1)" by simp
  then show ?thesis unfolding run by (simp add: shape2_full)
qed

text \<open>
  C2, amended.  When \<^verbatim>\<open>interpolate\<close> completes on a map of \<open>h\<close> rows, \<open>w\<close> columns
  and at least one channel, the new buffer has the shape \<open>(h, w, n)\<close> of the map's own
  buffer, whatever the shape of the query grid, and each query array holds exactly
  \<open>h * w\<close> points.
\<close>

theorem interpolate_shape:
  assumes "interpolate self interp u v valid = (Inr (), self')"
    and "shape3 (data self) = (h, w, n)" and "0 < n"
  shows "shape3 (data self') = (h, w, n) \<and>
         fst (shape2 u) * snd (shape2 u) = h * w \<and>
         fst (shape2 v) * snd (shape2 v) = h * w"
proof -
  from interpolate_Inr [OF assms(1,2)] assms(3) have
    "shape3 (data self') = (w, h, n)" "h = w"
    "fst (shape2 u) * snd (shape2 u) = w * h" "fst (shape2 v) * snd (shape2 v) = w * h"
    by blast+
  then show ?thesis by simp
qed

text \<open>
  A square map of one channel resampled at a query grid of one row: the new buffer is
  square.
\<close>

theorem interpolate_shape_witness:
  "shape3 (data (snd (interpolate (zeros_map 2 2 1) (const_interp None) (full 1 4 (Some (1 / 2)))
          (full 1 4 (Some (1 / 2))) (BoolArray (full 2 2 True))))) = (2, 2, 1) \<and>
   fst (shape2 (full 1 4 (Some (1 / 2)) :: real option ndarray2)) *
   snd (shape2 (full 1 4 (Some (1 / 2)) :: real option ndarray2)) = 2 * 2"
proof -
  have shp: "shape3 (data (zeros_map 2 2 1)) = (2, 2, 1)" by (rule shape3_zeros_map)
  have q: "fst (shape2 (full 1 4 (Some (1 / 2)) :: real option ndarray2)) *
           snd (shape2 (full 1 4 (Some (1 / 2)) :: real option ndarray2)) = 2 * 2"
    by (simp add: shape2_full)
  have col: "1 \<le> length (backgroundColor (zeros_map 2 2 1))" by (simp add: zeros_map_def)
  have n: "0 < (1::nat)" by simp
  from interpolate_ok [OF shp _ q q shape2_full col] obtain self' where
    run: "interpolate (zeros_map 2 2 1) (const_interp None) (full 1 4 (Some (1 / 2)))
            (full 1 4 (Some (1 / 2))) (BoolArray (full 2 2 True)) = (Inr (), self')"
    by auto
  from interpolate_shape [OF run shp n] show ?thesis unfolding run by simp
qed

lemma lower_angular: "lower ''angular'' = ''angular''"
  by code_simp

lemma lower_cube: "lower ''cube'' = ''cube''"
  by code_simp

lemma interpolate_mask_mismatch:
  assumes shp: "shape3 (data self) = (h, h, n)" and h: "0 < h"
    and u: "fst (shape2 u) * snd (shape2 u) = h * h"
    and v: "fst (shape2 v) * snd (shape2 v) = h * h"
    and m: "shape2 m \<noteq> (h, h)"
  shows "fst (interpolate self interp u v (BoolArray m)) = Inl AssertionError \<and>
         (\<forall>i<h. \<forall>j<h. \<forall>k<n.
            elem3 (data (snd (interpolate self interp u v (BoolArray m)))) i j k =
            interp (pixel_centres h) (pixel_centres h) (\<lambda>a b. elem3 (data self) a b k)
              (zip (flatten u) (flatten v) ! (i * h + j)))"
proof -
  let ?target = "zip (flatten u) (flatten v)"
  have len: "length (flatten u) = length (flatten v)" using u v by (simp add: length_flatten)
  have "shape3 (data self) = (length (pixel_centres h), length (pixel_centres h), n)"
    using shp by (simp add: length_pixel_centres)
  moreover have "length ?target =
      fst (shape3 (np_zeros (h, h, n))) * fst (snd (shape3 (np_zeros (h, h, n))))"
    using u v by (simp add: length_flatten shape3_np_zeros)
  ultimately obtain d where d: "interp_channels interp (pixel_centres h, pixel_centres h)
      (data self) ?target [0..<n] (np_zeros (h, h, n)) = Inr d"
    using interp_channels_ok by blast
  have shd: "shape3 d = (h, h, n)"
    using interp_channels_shape [OF d] by (simp add: shape3_np_zeros)
  have run: "interpolate self interp u v (BoolArray m) = (Inl AssertionError, self\<lparr>data := d\<rparr>)"
    unfolding interpolate_unfold [OF shp] using h len d m shd
    by (simp add: setBackgroundColor_def)
  have "elem3 d i j k = interp (pixel_centres h) (pixel_centres h)
          (\<lambda>a b. elem3 (data self) a b k) (?target ! (i * h + j))"
    if "i < h" "j < h" "k < n" for i j k
    using interp_channels_effect [OF d shape3_np_zeros that(1,2), of k] that(3) by simp
  then show ?thesis unfolding run by simp
qed

lemma interp_channels_not_square:
  assumes "h \<noteq> w" and "shape3 src = (h, w, Suc n)"
  shows "interp_channels interp (pixel_centres w, pixel_centres h) src target [0..<Suc n] d =
         Inl ValueError"
proof -
  have "[0..<Suc n] = 0 # [Suc 0..<Suc n]" by (rule upt_conv_Cons) simp
  then show ?thesis using assms
    by (simp add: RegularGridInterpolator_def channel_def length_pixel_centres del: upt_Suc)
qed

lemma convertTo_not_square:
  "fst (convertTo (zeros_map 1 2 1) interp ''angular'') = Inl ValueError \<and>
   format_tag (snd (convertTo (zeros_map 1 2 1) interp ''angular'')) = ''angular''"
proof -
  have tf: "lower ''angular'' \<in> set SUPPORTED_FORMATS"
    by (simp add: lower_angular SUPPORTED_FORMATS_def)
  have fmt: "format_tag (zeros_map 1 2 1) \<in> set SUPPORTED_FORMATS"
    by (simp add: zeros_map_def SUPPORTED_FORMATS_def)
  let ?s = "zeros_map 1 2 1 \<lparr>format_tag := ''angular''\<rparr>"
  from convertTo_supported [OF tf shape3_zeros_map, where interp = interp] fmt obtain u v valid where
    s: "shape2 u = (1, 2)" "shape2 v = (1, 2)" and
    c: "convertTo (zeros_map 1 2 1) interp ''angular'' = interpolate ?s interp u v (BoolArray valid)"
    by blast
  have shp: "shape3 (data ?s) = (1, 2, Suc 0)" by (simp add: shape3_zeros_map)
  have "interpolate ?s interp u v (BoolArray valid) = (Inl ValueError, ?s)"
    unfolding interpolate_unfold [OF shp]
    using interp_channels_not_square [OF _ shp]
    by (simp add: length_flatten s)
  with c show ?thesis by simp
qed

lemma setBackgroundColor_short_colour:
  "setBackgroundColor (zeros_map 1 1 1) [] (BoolArray (full 1 1 True)) =
   (Inl IndexError, zeros_map 1 1 1 \<lparr>backgroundColor := []\<rparr>)"
  by (simp add: setBackgroundColor_def shape3_zeros_map shape2_full)

text \<open>
  C3, as stated, fails.  \<^verbatim>\<open>interpolate\<close> with a mask of the wrong shape raises
  \<^verbatim>\<open>AssertionError\<close> after it has replaced the pixel buffer (here by \<^verbatim>\<open>nan\<close>, the
  queries lying outside the grid); \<^verbatim>\<open>convertTo\<close> on a
  map that is not square raises \<^verbatim>\<open>ValueError\<close> after it has replaced the format tag;
  \<^verbatim>\<open>setBackgroundColor\<close> with a colour of too few entries raises
  \<^verbatim>\<open>IndexError\<close> after it has replaced the background colour.
\<close>

theorem failure_after_mutation:
  "fst (interpolate (zeros_map 2 2 1) (const_interp None) (full 2 2 (Some 5))
          (full 2 2 (Some 5)) (BoolArray (full 3 3 True))) = Inl AssertionError \<and>
   elem3 (data (snd (interpolate (zeros_map 2 2 1) (const_interp None) (full 2 2 (Some 5))
          (full 2 2 (Some 5)) (BoolArray (full 3 3 True))))) 0 0 0 = None \<and>
   elem3 (data (zeros_map 2 2 1)) 0 0 0 = Some 0 \<and>
   fst (convertTo (zeros_map 1 2 1) (const_interp None) ''angular'') = Inl ValueError \<and>
   format_tag (snd (convertTo (zeros_map 1 2 1) (const_interp None) ''angular'')) = ''angular'' \<and>
   format_tag (zeros_map 1 2 1) = ''latlong'' \<and>
   fst (setBackgroundColor (zeros_map 1 1 1) [] (BoolArray (full 1 1 True))) = Inl IndexError \<and>
   backgroundColor (snd (setBackgroundColor (zeros_map 1 1 1) [] (BoolArray (full 1 1 True)))) = [] \<and>
   backgroundColor (zeros_map 1 1 1) = [Some 0, Some 0, Some 0]"
proof -
  have q: "fst (shape2 (full 2 2 (Some 5) :: real option ndarray2)) *
           snd (shape2 (full 2 2 (Some 5) :: real option ndarray2)) = 2 * 2"
    by (simp add: shape2_full)
  have m: "shape2 (full 3 3 True) \<noteq> (2, 2)" by (simp add: shape2_full)
  have "0 < (2::nat)" by simp
  from interpolate_mask_mismatch [OF shape3_zeros_map this q q m, where interp = "const_interp None"]
  have "fst (interpolate (zeros_map 2 2 1) (const_interp None) (full 2 2 (Some 5))
          (full 2 2 (Some 5)) (BoolArray (full 3 3 True))) = Inl AssertionError \<and>
        elem3 (data (snd (interpolate (zeros_map 2 2 1) (const_interp None)
          (full 2 2 (Some 5)) (full 2 2 (Some 5)) (BoolArray (full 3 3 True))))) 0 0 0 =
        None"
    by (simp add: const_interp_def)
  then show ?thesis
    unfolding setBackgroundColor_short_colour
    using convertTo_not_square [where interp = "const_interp None"]
    by (simp add: zeros_map_def np_zeros_def)
qed

text \<open>
  C3, amended.  The failures that are detected before the first assignment leave the map
  as it was: a constructor call with an unsupported format creates no map;
  \<^verbatim>\<open>convertTo\<close> with an unsupported target format, or failing with
  \<^verbatim>\<open>TypeError\<close> because the map's own tag has no transform, leaves the map unchanged;
  so does \<^verbatim>\<open>setBackgroundColor\<close> failing with \<^verbatim>\<open>AssertionError\<close>, and
  \<^verbatim>\<open>interpolate\<close> failing with \<^verbatim>\<open>ValueError\<close>.
\<close>

theorem failure_before_mutation:
  "(lower fmt \<notin> set SUPPORTED_FORMATS \<longrightarrow> init im fmt = Inl AssertionError) \<and>
   (lower targetFormat \<notin> set SUPPORTED_FORMATS \<longrightarrow>
      convertTo self interp targetFormat = (Inl AssertionError, self)) \<and>
   (fst (convertTo self interp targetFormat) = Inl TypeError \<longrightarrow>
      snd (convertTo self interp targetFormat) = self) \<and>
   (fst (setBackgroundColor self color valid) = Inl AssertionError \<longrightarrow>
      snd (setBackgroundColor self color valid) = self) \<and>
   (fst (interpolate self interp u v valid) = Inl ValueError \<longrightarrow>
      snd (interpolate self interp u v valid) = self)"
  using convertTo_unsupported convertTo_TypeError setBackgroundColor_assert interpolate_ValueError
  by (simp add: init_def)

text \<open>One failing call of each kind, each leaving its map unchanged.\<close>

theorem failure_before_mutation_witness:
  "init (np_zeros (1, 1, 1)) ''cube'' = Inl AssertionError \<and>
   convertTo (zeros_map 1 2 1) (const_interp None) ''cube'' = (Inl AssertionError, zeros_map 1 2 1) \<and>
   fst (setBackgroundColor (zeros_map 1 2 1) [Some 1] (BoolArray (full 2 2 True))) =
     Inl AssertionError \<and>
   snd (setBackgroundColor (zeros_map 1 2 1) [Some 1] (BoolArray (full 2 2 True))) =
     zeros_map 1 2 1 \<and>
   fst (interpolate (zeros_map 1 2 1) (const_interp None) (full 1 2 (Some (1 / 2)))
          (full 1 2 (Some (1 / 2))) (BoolArray (full 2 2 True))) = Inl ValueError \<and>
   snd (interpolate (zeros_map 1 2 1) (const_interp None) (full 1 2 (Some (1 / 2)))
          (full 1 2 (Some (1 / 2))) (BoolArray (full 2 2 True))) = zeros_map 1 2 1 \<and>
   fst (convertTo (zeros_map 1 1 1 \<lparr>format_tag := ''LatLong''\<rparr>) (const_interp None) ''angular'') =
     Inl TypeError \<and>
   snd (convertTo (zeros_map 1 1 1 \<lparr>format_tag := ''LatLong''\<rparr>) (const_interp None) ''angular'') =
     zeros_map 1 1 1 \<lparr>format_tag := ''LatLong''\<rparr>"
proof -
  let ?s = "zeros_map 1 2 1"
  let ?c = "zeros_map 1 1 1 \<lparr>format_tag := ''LatLong''\<rparr>"
  let ?g = "full 1 2 (Some (1 / 2)) :: real option ndarray2"
  let ?m = "BoolArray (full 2 2 True)"
  have cube: "lower ''cube'' \<notin> set SUPPORTED_FORMATS"
    by (simp add: lower_cube SUPPORTED_FORMATS_def)
  have sbc: "fst (setBackgroundColor ?s [Some 1] ?m) = Inl AssertionError"
    by (simp add: setBackgroundColor_def shape3_zeros_map shape2_full)
  have shp: "shape3 (data ?s) = (1, 2, Suc 0)" by (simp add: shape3_zeros_map)
  have itp: "fst (interpolate ?s (const_interp None) ?g ?g ?m) = Inl ValueError"
    unfolding interpolate_unfold [OF shp]
    using interp_channels_not_square [OF _ shp]
    by (simp add: length_flatten)
  have tf: "lower ''angular'' \<in> set SUPPORTED_FORMATS"
    by (simp add: lower_angular SUPPORTED_FORMATS_def)
  have shc: "shape3 (data ?c) = (1, 1, 1)" by (simp add: shape3_zeros_map)
  have bad: "format_tag ?c \<notin> set SUPPORTED_FORMATS" by (simp add: SUPPORTED_FORMATS_def)
  have cnv: "fst (convertTo ?c (const_interp None) ''angular'') = Inl TypeError"
    using convertTo_supported [OF tf shc, where interp = "const_interp None"] bad by simp
  from failure_before_mutation [where fmt = "''cube''" and im = "np_zeros (1, 1, 1)"
      and targetFormat = "''cube''" and self = ?s and interp = "const_interp None"
      and color = "[Some 1]" and valid = ?m and u = ?g and v = ?g]
    failure_before_mutation [where targetFormat = "''angular''" and self = ?c
      and interp = "const_interp None"]
    cube sbc itp cnv
  show ?thesis by blast
qed

text \<open>
  C6.  Given a boolean mask of the map's spatial shape and a colour with an entry for
  every channel, \<^verbatim>\<open>setBackgroundColor\<close> completes, sets every channel of every pixel
  whose mask entry is false to the colour and leaves the other pixels as they were.  In
  \<^verbatim>\<open>interpolate\<close>, a pixel whose mask entry is true holds the value the interpolator
  returned for it, whatever that value is, \<^verbatim>\<open>nan\<close> included.
\<close>

theorem background_fill:
  "(shape3 (data self) = (h, w, n) \<and> shape2 m = (h, w) \<and> n \<le> length color \<longrightarrow>
      fst (setBackgroundColor self color (BoolArray m)) = Inr () \<and>
      (\<forall>i<h. \<forall>j<w. \<forall>k<n.
         elem3 (data (snd (setBackgroundColor self color (BoolArray m)))) i j k =
           (if elem2 m i j then elem3 (data self) i j k else color ! k))) \<and>
   (shape3 (data self) = (h, w, n) \<and>
    interpolate self interp u v (BoolArray m') = (Inr (), self') \<longrightarrow>
      (\<forall>i<w. \<forall>j<h. \<forall>k<n. elem2 m' i j \<longrightarrow>
         elem3 (data self') i j k =
           interp (pixel_centres w) (pixel_centres h) (\<lambda>a b. elem3 (data self) a b k)
             (zip (flatten u) (flatten v) ! (i * h + j))))"
proof (intro conjI impI)
  assume a: "shape3 (data self) = (h, w, n) \<and> shape2 m = (h, w) \<and> n \<le> length color"
  from a setBackgroundColor_fills [of self h w n m color] obtain s' where
    run: "setBackgroundColor self color (BoolArray m) = (Inr (), s')" and
    eff: "\<And>i j k. elem3 (data s') i j k =
            (if k < n \<and> i < h \<and> j < w \<and> \<not> elem2 m i j then color ! k else elem3 (data self) i j k)"
    by blast
  show "fst (setBackgroundColor self color (BoolArray m)) = Inr ()" by (simp add: run)
  show "\<forall>i<h. \<forall>j<w. \<forall>k<n.
         elem3 (data (snd (setBackgroundColor self color (BoolArray m)))) i j k =
           (if elem2 m i j then elem3 (data self) i j k else color ! k)"
    unfolding run by (simp add: eff)
next
  assume a: "shape3 (data self) = (h, w, n) \<and>
    interpolate self interp u v (BoolArray m') = (Inr (), self')"
  then have shp: "shape3 (data self) = (h, w, n)"
    and run: "interpolate self interp u v (BoolArray m') = (Inr (), self')" by simp_all
  from interpolate_Inr [OF run shp] have
    "\<forall>i<w. \<forall>j<h. \<forall>k<n. elem3 (data self') i j k =
       (if elem2 m' i j
        then interp (pixel_centres w) (pixel_centres h) (\<lambda>a b. elem3 (data self) a b k)
               (zip (flatten u) (flatten v) ! (i * h + j))
        else backgroundColor self ! k)"
    by auto
  then show "\<forall>i<w. \<forall>j<h. \<forall>k<n. elem2 m' i j \<longrightarrow>
         elem3 (data self') i j k =
           interp (pixel_centres w) (pixel_centres h) (\<lambda>a b. elem3 (data self) a b k)
             (zip (flatten u) (flatten v) ! (i * h + j))"
    by simp
qed

text \<open>
  A mask that is true in column 0 only, and a query outside the grid whose pixel is marked
  valid: the pixel keeps \<^verbatim>\<open>nan\<close>, not the background colour.
\<close>

theorem background_fill_witness:
  "fst (setBackgroundColor (zeros_map 1 2 1) [Some 7]
          (BoolArray \<lparr>shape2 = (1, 2), elem2 = (\<lambda>i j. j = 0)\<rparr>)) = Inr () \<and>
   elem3 (data (snd (setBackgroundColor (zeros_map 1 2 1) [Some 7]
          (BoolArray \<lparr>shape2 = (1, 2), elem2 = (\<lambda>i j. j = 0)\<rparr>)))) 0 0 0 = Some 0 \<and>
   elem3 (data (snd (setBackgroundColor (zeros_map 1 2 1) [Some 7]
          (BoolArray \<lparr>shape2 = (1, 2), elem2 = (\<lambda>i j. j = 0)\<rparr>)))) 0 1 0 = Some 7 \<and>
   fst (interpolate (zeros_map 2 2 1) (const_interp None) (full 2 2 (Some 5)) (full 2 2 (Some 5))
          (BoolArray (full 2 2 True))) = Inr () \<and>
   elem3 (data (snd (interpolate (zeros_map 2 2 1) (const_interp None) (full 2 2 (Some 5))
          (full 2 2 (Some 5)) (BoolArray (full 2 2 True))))) 0 0 0 = None \<and>
   backgroundColor (zeros_map 2 2 1) ! 0 = Some 0"
proof -
  let ?m = "\<lparr>shape2 = (1, 2), elem2 = (\<lambda>i j. j = 0)\<rparr> :: bool ndarray2"
  let ?q = "full 2 2 (Some 5) :: real option ndarray2"
  have p1: "shape3 (data (zeros_map 1 2 1)) = (1, 2, 1) \<and> shape2 ?m = (1, 2) \<and>
            1 \<le> length [Some 7 :: real option]"
    by (simp add: shape3_zeros_map)
  have q: "fst (shape2 ?q) * snd (shape2 ?q) = 2 * 2" by (simp add: shape2_full)
  have col: "1 \<le> length (backgroundColor (zeros_map 2 2 1))" by (simp add: zeros_map_def)
  have "0 < (2::nat)" by simp
  from interpolate_ok [OF shape3_zeros_map this q q shape2_full col] obtain self' where
    run: "interpolate (zeros_map 2 2 1) (const_interp None) ?q ?q (BoolArray (full 2 2 True)) =
          (Inr (), self')"
    by blast
  have p2: "shape3 (data (zeros_map 2 2 1)) = (2, 2, 1) \<and>
      interpolate (zeros_map 2 2 1) (const_interp None) ?q ?q (BoolArray (full 2 2 True)) =
      (Inr (), self')"
    using run by (simp add: shape3_zeros_map)
  have z: "elem3 (data (zeros_map 1 2 1)) 0 0 0 = Some 0"
    by (simp add: zeros_map_def np_zeros_def)
  note part1 = background_fill [where self = "zeros_map 1 2 1" and h = 1 and w = 2 and n = 1
      and m = ?m and color = "[Some 7]", THEN conjunct1, THEN mp, OF p1]
  note a = part1 [THEN conjunct1]
  note b = part1 [THEN conjunct2, rule_format]
  have b0: "elem3 (data (snd (setBackgroundColor (zeros_map 1 2 1) [Some 7]
        (BoolArray ?m)))) 0 0 0 = Some 0"
    using b [of 0 0 0] z by simp
  have b1: "elem3 (data (snd (setBackgroundColor (zeros_map 1 2 1) [Some 7]
        (BoolArray ?m)))) 0 1 0 = Some 7"
    using b [of 0 1 0] by simp
  note part2 = background_fill [where self = "zeros_map 2 2 1" and h = 2 and w = 2 and n = 1
      and interp = "const_interp None" and u = ?q and v = ?q and m' = "full 2 2 True"
      and self' = self', THEN conjunct2, THEN mp, OF p2, rule_format]
  have c: "elem3 (data self') 0 0 0 = None"
    using part2 [of 0 0 0] by (simp add: full_def const_interp_def)
  show ?thesis
    unfolding run using a b0 b1 c by (simp add: zeros_map_def)
qed

text \<open>
  C10.  The constructor stores the lower-cased tag, so a map built with any casing of a
  supported format dispatches both transforms.  \<^verbatim>\<open>convertTo\<close> stores the target
  format as given: on a square map with a supported tag and a background colour for every
  channel, \<^verbatim>\<open>convertTo\<close> with \<^verbatim>\<open>'LatLong'\<close> completes, and afterwards every call of
  \<^verbatim>\<open>image2world\<close> and \<^verbatim>\<open>world2image\<close> raises \<^verbatim>\<open>TypeError\<close>.
\<close>

theorem convertTo_keeps_case:
  "(lower fmt \<in> set SUPPORTED_FORMATS \<longrightarrow>
      (\<exists>e. init im fmt = Inr e \<and> format_tag e = lower fmt \<and>
           (\<exists>r. image2world e u v = Inr r) \<and> (\<exists>r. world2image e x y z = Inr r))) \<and>
   (format_tag self \<in> set SUPPORTED_FORMATS \<and> shape3 (data self) = (h, h, n) \<and> 0 < h \<and>
    n \<le> length (backgroundColor self) \<longrightarrow>
      (\<exists>self'. convertTo self interp ''LatLong'' = (Inr (), self') \<and>
         format_tag self' = ''LatLong'' \<and>
         (\<forall>u' v'. image2world self' u' v' = Inl TypeError) \<and>
         (\<forall>x' y' z'. world2image self' x' y' z' = Inl TypeError)))"
proof (intro conjI impI)
  assume a: "lower fmt \<in> set SUPPORTED_FORMATS"
  let ?e = "\<lparr>data = im, format_tag = lower fmt, backgroundColor = [Some 0, Some 0, Some 0]\<rparr>"
  have "init im fmt = Inr ?e" using a by (simp add: init_def)
  moreover have f: "format_tag ?e \<in> set SUPPORTED_FORMATS" using a by simp
  moreover have "\<exists>r. image2world ?e u v = Inr r" using image2world_supported [OF f] by blast
  moreover have "\<exists>r. world2image ?e x y z = Inr r" using world2image_supported [OF f] by blast
  ultimately show "\<exists>e. init im fmt = Inr e \<and> format_tag e = lower fmt \<and>
           (\<exists>r. image2world e u v = Inr r) \<and> (\<exists>r. world2image e x y z = Inr r)"
    by (intro exI [of _ ?e]) simp
next
  assume a: "format_tag self \<in> set SUPPORTED_FORMATS \<and> shape3 (data self) = (h, h, n) \<and> 0 < h \<and>
    n \<le> length (backgroundColor self)"
  have tf: "lower ''LatLong'' \<in> set SUPPORTED_FORMATS"
    by (simp add: lower_LatLong SUPPORTED_FORMATS_def)
  from a convertTo_ok [OF tf, of self h n interp] obtain self' where
    run: "convertTo self interp ''LatLong'' = (Inr (), self')" and
    tag: "format_tag self' = ''LatLong''"
    by blast
  show "\<exists>self'. convertTo self interp ''LatLong'' = (Inr (), self') \<and>
         format_tag self' = ''LatLong'' \<and>
         (\<forall>u' v'. image2world self' u' v' = Inl TypeError) \<and>
         (\<forall>x' y' z'. world2image self' x' y' z' = Inl TypeError)"
    using run tag image2world_LatLong [OF tag] world2image_LatLong [OF tag] by blast
qed

text \<open>The map built from a \<open>2 \<times> 2 \<times> 3\<close> zero image with \<^verbatim>\<open>'LatLong'\<close>.\<close>

theorem convertTo_keeps_case_witness:
  "init (np_zeros (2, 2, 3)) ''LatLong'' = Inr (zeros_map 2 2 3) \<and>
   (\<exists>r. image2world (zeros_map 2 2 3) (full 2 2 (1 / 2)) (full 2 2 (1 / 2)) = Inr r) \<and>
   fst (convertTo (zeros_map 2 2 3) (const_interp None) ''LatLong'') = Inr () \<and>
   format_tag (snd (convertTo (zeros_map 2 2 3) (const_interp None) ''LatLong'')) = ''LatLong'' \<and>
   image2world (snd (convertTo (zeros_map 2 2 3) (const_interp None) ''LatLong''))
     (full 2 2 (1 / 2)) (full 2 2 (1 / 2)) = Inl TypeError \<and>
   world2image (snd (convertTo (zeros_map 2 2 3) (const_interp None) ''LatLong''))
     (full 2 2 0) (full 2 2 0) (full 2 2 (- 1)) = Inl TypeError"
proof -
  have p1: "lower ''LatLong'' \<in> set SUPPORTED_FORMATS"
    by (simp add: lower_LatLong SUPPORTED_FORMATS_def)
  have p2: "format_tag (zeros_map 2 2 3) \<in> set SUPPORTED_FORMATS \<and>
      shape3 (data (zeros_map 2 2 3)) = (2, 2, 3) \<and> 0 < (2::nat) \<and>
      3 \<le> length (backgroundColor (zeros_map 2 2 3))"
    by (simp add: zeros_map_def np_zeros_def SUPPORTED_FORMATS_def)
  have i: "init (np_zeros (2, 2, 3)) ''LatLong'' = Inr (zeros_map 2 2 3)"
    by (simp add: init_def lower_LatLong SUPPORTED_FORMATS_def zeros_map_def)
  from convertTo_keeps_case [where fmt = "''LatLong''" and im = "np_zeros (2, 2, 3)"
      and u = "full 2 2 (1 / 2)" and v = "full 2 2 (1 / 2)"
      and self = "zeros_map 2 2 3" and h = 2 and n = 3 and interp = "const_interp None"] p1 p2
  have a: "\<exists>e. init (np_zeros (2, 2, 3)) ''LatLong'' = Inr e \<and>
             (\<exists>r. image2world e (full 2 2 (1 / 2)) (full 2 2 (1 / 2)) = Inr r)"
    and b: "\<exists>self'. convertTo (zeros_map 2 2 3) (const_interp None) ''LatLong'' = (Inr (), self') \<and>
         format_tag self' = ''LatLong'' \<and>
         (\<forall>u' v'. image2world self' u' v' = Inl TypeError) \<and>
         (\<forall>x' y' z'. world2image self' x' y' z' = Inl TypeError)"
    by blast+
  from a i have a': "\<exists>r. image2world (zeros_map 2 2 3) (full 2 2 (1 / 2)) (full 2 2 (1 / 2)) = Inr r"
    by simp
  from b obtain self' where
    run: "convertTo (zeros_map 2 2 3) (const_interp None) ''LatLong'' = (Inr (), self')" and
    r: "format_tag self' = ''LatLong''" "\<forall>u' v'. image2world self' u' v' = Inl TypeError"
       "\<forall>x' y' z'. world2image self' x' y' z' = Inl TypeError"
    by blast
  show ?thesis unfolding run using i a' r by simp
qed

end
